theory Spec2Isabelle
  imports Main
begin

section \<open>Python values, exceptions and the socket environment\<close>

text \<open>
  The transport layer of \<^verbatim>\<open>amqpstorm/io.py\<close>. Exceptions are values. The class
  hierarchy is the one of Python 2.6/2.7, the interpreters \<^verbatim>\<open>setup.py\<close> declares:
  \<^verbatim>\<open>socket.timeout\<close> and \<^verbatim>\<open>socket.gaierror\<close> derive from \<^verbatim>\<open>socket.error\<close>, which
  derives from \<^verbatim>\<open>IOError\<close>; \<^verbatim>\<open>OSError\<close> is a sibling of \<^verbatim>\<open>IOError\<close>.
  \<^verbatim>\<open>AMQPConnectionError\<close> comes from \<^verbatim>\<open>amqpstorm/exception.py\<close>, which is not part of
  the sources at hand; only its constructor is used, with the wrapped value as its
  single argument.
\<close>

datatype exc_class =
  Socket_error | Socket_timeout | Socket_gaierror | IOError | OSError
  | AMQPConnectionError | AttributeError | IndexError | TypeError | ValueError

datatype pyval = PInt int | PStr string | PExc pyexc
  and pyexc = Exc (exc_cls: exc_class) (args: "pyval list")

type_synonym bytes = string

definition EMPTY_BUFFER :: bytes where
  "EMPTY_BUFFER = []"

text \<open>\<^verbatim>\<open>POLL_TIMEOUT = 0.1\<close>: the decimal literal, as mantissa and decimal exponent.\<close>

datatype pyfloat = Decimal int int

definition POLL_TIMEOUT :: pyfloat where
  "POLL_TIMEOUT = Decimal 1 (- 1)"

text \<open>The errno constants, with their Linux values (both are 11 there).\<close>

definition EAGAIN :: int where
  "EAGAIN = 11"

definition EWOULDBLOCK :: int where
  "EWOULDBLOCK = 11"

text \<open>\<^verbatim>\<open>isinstance\<close> against the classes the handlers of the source name.\<close>

definition is_socket_timeout :: "pyexc \<Rightarrow> bool" where
  "is_socket_timeout e = (exc_cls e = Socket_timeout)"

definition is_socket_error :: "pyexc \<Rightarrow> bool" where
  "is_socket_error e = (exc_cls e \<in> {Socket_error, Socket_timeout, Socket_gaierror})"

definition is_socket_gaierror :: "pyexc \<Rightarrow> bool" where
  "is_socket_gaierror e = (exc_cls e = Socket_gaierror)"

definition is_IOError_or_OSError :: "pyexc \<Rightarrow> bool" where
  "is_IOError_or_OSError e =
     (exc_cls e \<in> {IOError, OSError, Socket_error, Socket_timeout, Socket_gaierror})"

definition is_OSError_or_socket_error :: "pyexc \<Rightarrow> bool" where
  "is_OSError_or_socket_error e =
     (exc_cls e \<in> {OSError, Socket_error, Socket_timeout, Socket_gaierror})"

text \<open>\<^verbatim>\<open>x in (EWOULDBLOCK, EAGAIN)\<close>\<close>

definition in_EWOULDBLOCK_EAGAIN :: "pyval \<Rightarrow> bool" where
  "in_EWOULDBLOCK_EAGAIN x = (x = PInt EWOULDBLOCK \<or> x = PInt EAGAIN)"

definition socket_error_literal :: pyexc where
  "socket_error_literal = Exc Socket_error [PStr ''connection/socket error'']"

text \<open>The errors Python itself raises on \<^verbatim>\<open>()[0]\<close>, on an attribute of \<^verbatim>\<open>None\<close> and
  on a call of \<^verbatim>\<open>None\<close>.\<close>

definition index_error :: pyexc where
  "index_error = Exc IndexError [PStr ''tuple index out of range'']"

definition none_attribute_error :: "string \<Rightarrow> pyexc" where
  "none_attribute_error attr =
     Exc AttributeError [PStr (''NoneType object has no attribute '' @ attr)]"

definition none_call_error :: pyexc where
  "none_call_error = Exc TypeError [PStr ''NoneType object is not callable'']"

subsection \<open>Sockets, select, send and recv\<close>

datatype address_family = AF_UNSPEC | AF_INET | AF_INET6

datatype socket_kind = SOCK_STREAM

type_synonym sockaddr = "string \<times> int"

text \<open>A socket object: what \<^verbatim>\<open>_create_socket\<close> and \<^verbatim>\<open>connect\<close> put into it.\<close>

record sock =
  family :: address_family
  kind :: socket_kind
  proto :: int
  timeout_setting :: "int option"
  ssl_wrapped :: "(string \<rightharpoonup> pyval) option"
  peer :: "sockaddr option"

type_synonym select_args = "sock list \<times> sock list \<times> sock list \<times> pyfloat"

type_synonym select_result = "sock list \<times> sock list \<times> sock list"

text \<open>What the operating system answers to one \<^verbatim>\<open>select.select\<close> call, to one
  \<^verbatim>\<open>send\<close> and to one \<^verbatim>\<open>recv\<close>. A loop of the source is run against a script of such
  answers, one per call; a script that runs out before the loop ends leaves the run
  unfinished (\<open>None\<close>).\<close>

type_synonym select_impl = "select_args \<Rightarrow> select_result"

datatype send_result = SendReturns int | SendRaises pyexc

datatype recv_result = RecvReturns bytes | RecvRaises pyexc

type_synonym recv_impl = "nat \<Rightarrow> recv_result"

datatype thread = Thread (thread_name: string) (daemon: bool)

datatype event =
  EvSelect select_args select_result
  | EvSend bytes send_result
  | EvRecv nat recv_result
  | EvConsume bytes bytes
  | EvJoin thread
  | EvShutdown sock "pyexc option"
  | EvClose sock "pyexc option"
  | EvGetaddrinfo string int address_family socket_kind
  | EvConnect sock sockaddr "pyexc option"

datatype completion = Returns | Raises pyexc

section \<open>Poller\<close>

record poller =
  poll_read :: select_args
  poll_write :: select_args

definition Poller :: "sock \<Rightarrow> poller" where
  "Poller fd =
     \<lparr>poll_read = ([fd], [], [], POLL_TIMEOUT), poll_write = ([fd], [fd], [fd], POLL_TIMEOUT)\<rparr>"

definition ready_to_write :: "poller \<Rightarrow> select_impl \<Rightarrow> pyexc + sock list" where
  "ready_to_write p select =
     (case select (poll_write p) of
        (_, wlist, xlist) \<Rightarrow>
          if xlist \<noteq> [] then Inl socket_error_literal else Inr wlist)"

definition ready_to_read :: "poller \<Rightarrow> select_impl \<Rightarrow> sock list" where
  "ready_to_read p select = (case select (poll_read p) of (rlist, _, _) \<Rightarrow> rlist)"

section \<open>IO\<close>

text \<open>The connection parameters are a dictionary in the source; the five keys the
  transport reads are the fields here.\<close>

record parameters =
  hostname :: string
  port :: int
  timeout :: "int option"
  ssl :: bool
  ssl_options :: "string \<rightharpoonup> pyval"

record io =
  exceptions :: "pyexc list option"
  inbound_thread :: "thread option"
  on_read_impl :: "(bytes \<Rightarrow> bytes) option"
  running :: bool
  parameters :: parameters
  data_in :: bytes
  poller :: "poller option"
  socket :: "sock option"
  use_ssl :: bool

definition IO :: "parameters \<Rightarrow> pyexc list option \<Rightarrow> (bytes \<Rightarrow> bytes) option \<Rightarrow> io" where
  "IO params excs on_read =
     \<lparr>exceptions = excs, inbound_thread = None, on_read_impl = on_read, running = False,
      parameters = params, data_in = EMPTY_BUFFER, poller = None, socket = None,
      use_ssl = ssl params\<rparr>"

subsection \<open>\<^verbatim>\<open>write_to_socket\<close>\<close>

text \<open>\<^verbatim>\<open>frame_data[total_bytes_written:]\<close>, with Python's reading of a negative start.\<close>

definition slice_from :: "bytes \<Rightarrow> int \<Rightarrow> bytes" where
  "slice_from xs i =
     (if i < 0 then drop (nat (int (length xs) + i)) xs else drop (nat i) xs)"

text \<open>The two \<^verbatim>\<open>except\<close> clauses of the loop body, in the order of the source: the
  loop goes on (\<open>Retry\<close>), or the call ends.\<close>

datatype handled = Retry | Finish completion io

definition write_except :: "io \<Rightarrow> pyexc \<Rightarrow> handled" where
  "write_except io why =
     (if is_socket_timeout why then Retry
      else if is_socket_error why then
        (case args why of
           [] \<Rightarrow> Finish (Raises index_error) io
         | a # _ \<Rightarrow>
             if in_EWOULDBLOCK_EAGAIN a then Retry
             else
               (case exceptions io of
                  None \<Rightarrow> Finish (Raises (none_attribute_error ''append'')) io
                | Some es \<Rightarrow>
                    Finish Returns
                      (io\<lparr>exceptions := Some (es @ [Exc AMQPConnectionError [PExc why]])\<rparr>)))
      else Finish (Raises why) io)"

datatype wstep = Next int "send_result list" | Stop completion io | Starved

definition after_except :: "io \<Rightarrow> int \<Rightarrow> send_result list \<Rightarrow> pyexc \<Rightarrow> wstep" where
  "after_except io written snds why =
     (case write_except io why of Retry \<Rightarrow> Next written snds | Finish c io' \<Rightarrow> Stop c io')"

text \<open>One pass through the body of the \<^verbatim>\<open>while\<close> loop, with the answer of the
  operating system to the \<^verbatim>\<open>select\<close> of this pass (if the script still has one) and the
  answers to the \<^verbatim>\<open>send\<close> calls still to come.\<close>

definition write_body ::
  "io \<Rightarrow> bytes \<Rightarrow> int \<Rightarrow> select_impl option \<Rightarrow> send_result list \<Rightarrow> event list \<times> wstep" where
  "write_body io frame_data written selo snds =
     (case socket io of
        None \<Rightarrow> ([], after_except io written snds socket_error_literal)
      | Some s \<Rightarrow>
          (case poller io of
             None \<Rightarrow> ([], Stop (Raises (none_attribute_error ''ready_to_write'')) io)
           | Some p \<Rightarrow>
               (case selo of
                  None \<Rightarrow> ([], Starved)
                | Some select \<Rightarrow>
                    (let ev = EvSelect (poll_write p) (select (poll_write p)) in
                     case ready_to_write p select of
                       Inl why \<Rightarrow> ([ev], after_except io written snds why)
                     | Inr wlist \<Rightarrow>
                         if wlist = [] then ([ev], Next written snds)
                         else
                           (case snds of
                              [] \<Rightarrow> ([ev], Starved)
                            | r # snds' \<Rightarrow>
                                (let evs = [ev, EvSend (slice_from frame_data written) r] in
                                 case r of
                                   SendRaises why \<Rightarrow> (evs, after_except io written snds' why)
                                 | SendReturns bytes_written \<Rightarrow>
                                     if bytes_written = 0
                                     then (evs, after_except io written snds' socket_error_literal)
                                     else (evs, Next (written + bytes_written) snds')))))))"

text \<open>The loop. The result is the list of calls made to the operating system, and
  how the call ended: \<open>None\<close> when the script ran out first, else whether it returned or
  raised, the state it left, and the last value of \<^verbatim>\<open>total_bytes_written\<close>.\<close>

fun write_loop ::
  "io \<Rightarrow> bytes \<Rightarrow> int \<Rightarrow> select_impl list \<Rightarrow> send_result list
     \<Rightarrow> event list \<times> (completion \<times> io \<times> int) option" where
  "write_loop io frame_data written [] snds =
     (if written < int (length frame_data) then
        (case write_body io frame_data written None snds of
           (evs, Stop c io') \<Rightarrow> (evs, Some (c, io', written))
         | (evs, _) \<Rightarrow> (evs, None))
      else ([], Some (Returns, io, written)))"
| "write_loop io frame_data written (select # sels) snds =
     (if written < int (length frame_data) then
        (case write_body io frame_data written (Some select) snds of
           (evs, Stop c io') \<Rightarrow> (evs, Some (c, io', written))
         | (evs, Starved) \<Rightarrow> (evs, None)
         | (evs, Next written' snds') \<Rightarrow>
             (case write_loop io frame_data written' sels snds' of
                (evs', fin) \<Rightarrow> (evs @ evs', fin)))
      else ([], Some (Returns, io, written)))"

definition write_to_socket ::
  "io \<Rightarrow> bytes \<Rightarrow> select_impl list \<Rightarrow> send_result list
     \<Rightarrow> event list \<times> (completion \<times> io \<times> int) option" where
  "write_to_socket io frame_data sels snds = write_loop io frame_data 0 sels snds"

subsection \<open>\<^verbatim>\<open>_receive\<close> and \<^verbatim>\<open>_process_incoming_data\<close>\<close>

text \<open>The two \<^verbatim>\<open>except\<close> clauses of \<^verbatim>\<open>_receive\<close> and the \<^verbatim>\<open>return data_in\<close> after
  them: the value returned or the exception that leaves the function, and the state.\<close>

definition receive_except :: "io \<Rightarrow> pyexc \<Rightarrow> (pyexc + bytes) \<times> io" where
  "receive_except io why =
     (if is_socket_timeout why then (Inr EMPTY_BUFFER, io)
      else if is_IOError_or_OSError why then
        (case args why of
           [] \<Rightarrow> (Inl index_error, io)
         | a # _ \<Rightarrow>
             if \<not> in_EWOULDBLOCK_EAGAIN a then
               (case exceptions io of
                  None \<Rightarrow> (Inl (none_attribute_error ''append''), io)
                | Some es \<Rightarrow>
                    (Inr EMPTY_BUFFER,
                     io\<lparr>exceptions := Some (es @ [Exc AMQPConnectionError [PExc why]]),
                        running := False\<rparr>))
             else (Inr EMPTY_BUFFER, io))
      else (Inl why, io))"

text \<open>\<^verbatim>\<open>MAX_FRAME_SIZE\<close> is a constant of \<^verbatim>\<open>amqpstorm/base.py\<close>, which is not at
  hand: it is the first argument. The answers of the operating system to the
  \<^verbatim>\<open>recv\<close> calls to come are the script \<open>recvs\<close>; the result is \<open>None\<close> when a
  \<^verbatim>\<open>recv\<close> is due and the script has run out.\<close>

definition receive ::
  "nat \<Rightarrow> io \<Rightarrow> recv_impl list
     \<Rightarrow> (event list \<times> (pyexc + bytes) \<times> io \<times> recv_impl list) option" where
  "receive MAX_FRAME_SIZE io recvs =
     (case socket io of
        None \<Rightarrow>
          (case receive_except io socket_error_literal of (r, io') \<Rightarrow> Some ([], r, io', recvs))
      | Some s \<Rightarrow>
          (case recvs of
             [] \<Rightarrow> None
           | recv # recvs' \<Rightarrow>
               (let ev = EvRecv MAX_FRAME_SIZE (recv MAX_FRAME_SIZE) in
                case recv MAX_FRAME_SIZE of
                  RecvReturns d \<Rightarrow> Some ([ev], Inr d, io, recvs')
                | RecvRaises why \<Rightarrow>
                    (case receive_except io why of (r, io') \<Rightarrow> Some ([ev], r, io', recvs')))))"

datatype rstep = RNext io "recv_impl list" | RStop completion io | RStarved

text \<open>One pass through the body of the reader loop.\<close>

definition process_body ::
  "nat \<Rightarrow> io \<Rightarrow> select_impl option \<Rightarrow> recv_impl list \<Rightarrow> event list \<times> rstep" where
  "process_body MAX_FRAME_SIZE io selo recvs =
     (case poller io of
        None \<Rightarrow> ([], RStop (Raises (none_attribute_error ''ready_to_read'')) io)
      | Some p \<Rightarrow>
          (case selo of
             None \<Rightarrow> ([], RStarved)
           | Some select \<Rightarrow>
               (let ev = EvSelect (poll_read p) (select (poll_read p)) in
                if ready_to_read p select = [] then ([ev], RNext io recvs)
                else
                  (case receive MAX_FRAME_SIZE io recvs of
                     None \<Rightarrow> ([ev], RStarved)
                   | Some (evs, Inl why, io', recvs') \<Rightarrow> (ev # evs, RStop (Raises why) io')
                   | Some (evs, Inr d, io', recvs') \<Rightarrow>
                       (let io1 = io'\<lparr>data_in := data_in io' @ d\<rparr> in
                        case on_read_impl io1 of
                          None \<Rightarrow> (ev # evs, RStop (Raises none_call_error) io1)
                        | Some f \<Rightarrow>
                            (ev # evs @ [EvConsume (data_in io1) (f (data_in io1))],
                             RNext (io1\<lparr>data_in := f (data_in io1)\<rparr>) recvs'))))))"

text \<open>The reader loop, run by the inbound thread alone: the Running Flag changes only
  where the loop itself clears it. \<open>None\<close>: the script ran out with the loop still
  running.\<close>

fun process_incoming_data ::
  "nat \<Rightarrow> io \<Rightarrow> select_impl list \<Rightarrow> recv_impl list
     \<Rightarrow> event list \<times> (completion \<times> io) option" where
  "process_incoming_data MAX_FRAME_SIZE io [] recvs =
     (if running io then
        (case process_body MAX_FRAME_SIZE io None recvs of
           (evs, RStop c io') \<Rightarrow> (evs, Some (c, io'))
         | (evs, _) \<Rightarrow> (evs, None))
      else ([], Some (Returns, io)))"
| "process_incoming_data MAX_FRAME_SIZE io (select # sels) recvs =
     (if running io then
        (case process_body MAX_FRAME_SIZE io (Some select) recvs of
           (evs, RStop c io') \<Rightarrow> (evs, Some (c, io'))
         | (evs, RStarved) \<Rightarrow> (evs, None)
         | (evs, RNext io' recvs') \<Rightarrow>
             (case process_incoming_data MAX_FRAME_SIZE io' sels recvs' of
                (evs', fin) \<Rightarrow> (evs @ evs', fin)))
      else ([], Some (Returns, io)))"

subsection \<open>\<^verbatim>\<open>close\<close>\<close>

text \<open>\<^verbatim>\<open>_close_socket\<close>: \<open>sd\<close> and \<open>cl\<close> are what \<^verbatim>\<open>shutdown\<close> and \<^verbatim>\<open>close\<close> of the socket
  do when called (\<open>None\<close>: they return; \<open>Some e\<close>: they raise \<open>e\<close>).\<close>

definition close_socket ::
  "io \<Rightarrow> pyexc option \<Rightarrow> pyexc option \<Rightarrow> event list \<times> completion" where
  "close_socket io sd cl =
     (case socket io of
        None \<Rightarrow> ([], Raises (none_attribute_error ''shutdown''))
      | Some s \<Rightarrow>
          (case sd of
             Some e \<Rightarrow>
               ([EvShutdown s sd], if is_OSError_or_socket_error e then Returns else Raises e)
           | None \<Rightarrow>
               (case cl of
                  Some e \<Rightarrow>
                    ([EvShutdown s sd, EvClose s cl],
                     if is_OSError_or_socket_error e then Returns else Raises e)
                | None \<Rightarrow> ([EvShutdown s sd, EvClose s cl], Returns))))"

text \<open>\<^verbatim>\<open>close\<close>. Joining the inbound thread is recorded as an event; what the thread
  does meanwhile is outside this sequential model.\<close>

definition close ::
  "io \<Rightarrow> pyexc option \<Rightarrow> pyexc option \<Rightarrow> event list \<times> completion \<times> io" where
  "close io sd cl =
     (let io1 = io\<lparr>running := False\<rparr>;
          joined = (case inbound_thread io1 of Some t \<Rightarrow> [EvJoin t] | None \<Rightarrow> []);
          cleared = io1\<lparr>inbound_thread := None, poller := None, socket := None\<rparr>
      in case socket io1 of
           None \<Rightarrow> (joined, Returns, cleared)
         | Some s \<Rightarrow>
             (case close_socket io1 sd cl of
                (evs, Raises e) \<Rightarrow> (joined @ evs, Raises e, io1)
              | (evs, Returns) \<Rightarrow> (joined @ evs, Returns, cleared)))"

subsection \<open>\<^verbatim>\<open>open\<close>\<close>

type_synonym addrinfo = "address_family \<times> socket_kind \<times> int \<times> string \<times> sockaddr"

text \<open>The platform: \<^verbatim>\<open>socket.has_ipv6\<close>, the resolver, what \<^verbatim>\<open>socket.socket\<close> does for
  an address family, what \<^verbatim>\<open>ssl.wrap_socket\<close> does for a mapping of options and what
  \<^verbatim>\<open>connect\<close> to an address does (\<open>None\<close>: the call returns; \<open>Some e\<close>: it raises \<open>e\<close>),
  and the two constants of \<^verbatim>\<open>amqpstorm/compatibility.py\<close>, which is not at hand.\<close>

record env =
  has_ipv6 :: bool
  getaddrinfo :: "string \<Rightarrow> int \<Rightarrow> address_family \<Rightarrow> socket_kind \<Rightarrow> pyexc + addrinfo list"
  socket_socket :: "address_family \<Rightarrow> pyexc option"
  wrap_socket :: "(string \<rightharpoonup> pyval) \<Rightarrow> pyexc option"
  connect :: "sockaddr \<Rightarrow> pyexc option"
  SSL_SUPPORTED :: bool
  DEFAULT_SSL_VERSION :: pyval

definition get_socket_addresses :: "env \<Rightarrow> io \<Rightarrow> event list \<times> (pyexc + addrinfo list)" where
  "get_socket_addresses env io =
     (let family = (if \<not> has_ipv6 env then AF_INET else AF_UNSPEC);
          host = hostname (parameters io);
          prt = port (parameters io)
      in ([EvGetaddrinfo host prt family SOCK_STREAM],
          case getaddrinfo env host prt family SOCK_STREAM of
            Inl why \<Rightarrow>
              if is_socket_gaierror why then Inl (Exc AMQPConnectionError [PExc why])
              else Inl why
          | Inr addresses \<Rightarrow> Inr addresses))"

text \<open>The options \<^verbatim>\<open>_ssl_wrap_socket\<close> leaves in the parameters and hands to
  \<^verbatim>\<open>ssl.wrap_socket\<close>: the configured ones, with the default protocol version when none
  is set.\<close>

definition defaulted_ssl_options :: "env \<Rightarrow> io \<Rightarrow> (string \<rightharpoonup> pyval)" where
  "defaulted_ssl_options env io =
     (let opts = ssl_options (parameters io)
      in if opts ''ssl_version'' = None
         then opts(''ssl_version'' \<mapsto> DEFAULT_SSL_VERSION env) else opts)"

text \<open>The parameters are changed before \<^verbatim>\<open>ssl.wrap_socket\<close> is called, so they stay
  changed when it raises.\<close>

definition ssl_wrap_socket :: "env \<Rightarrow> io \<Rightarrow> sock \<Rightarrow> (pyexc + sock) \<times> io" where
  "ssl_wrap_socket env io sck =
     (let opts' = defaulted_ssl_options env io;
          io' = io\<lparr>parameters := (parameters io)\<lparr>ssl_options := opts'\<rparr>\<rparr>
      in case wrap_socket env opts' of
           Some e \<Rightarrow> (Inl e, io')
         | None \<Rightarrow> (Inr (sck\<lparr>ssl_wrapped := Some opts'\<rparr>), io'))"

text \<open>\<^verbatim>\<open>x or None\<close> on the timeout parameter.\<close>

definition or_None :: "int option \<Rightarrow> int option" where
  "or_None x = (case x of None \<Rightarrow> None | Some n \<Rightarrow> if n = 0 then None else Some n)"

text \<open>\<^verbatim>\<open>sock.settimeout(value)\<close>: a negative value is refused with a \<^verbatim>\<open>ValueError\<close>.\<close>

definition settimeout :: "sock \<Rightarrow> int option \<Rightarrow> pyexc + sock" where
  "settimeout sck v =
     (case v of
        None \<Rightarrow> Inr (sck\<lparr>timeout_setting := None\<rparr>)
      | Some n \<Rightarrow>
          if n < 0 then Inl (Exc ValueError [PStr ''Timeout value out of range''])
          else Inr (sck\<lparr>timeout_setting := Some n\<rparr>))"

definition no_tls_error :: pyexc where
  "no_tls_error =
     Exc AMQPConnectionError [PStr ''Python not compiled with support for TLSv1 or higher'']"

text \<open>\<^verbatim>\<open>_create_socket\<close>: each of \<^verbatim>\<open>socket.socket\<close>, \<^verbatim>\<open>settimeout\<close> and the TLS wrap can
  raise, and no handler stands around them.\<close>

definition create_socket :: "env \<Rightarrow> io \<Rightarrow> address_family \<Rightarrow> (pyexc + sock) \<times> io" where
  "create_socket env io socket_family =
     (case socket_socket env socket_family of
        Some e \<Rightarrow> (Inl e, io)
      | None \<Rightarrow>
          (case settimeout
                  \<lparr>family = socket_family, kind = SOCK_STREAM, proto = 0,
                   timeout_setting = None, ssl_wrapped = None, peer = None\<rparr>
                  (or_None (timeout (parameters io))) of
             Inl e \<Rightarrow> (Inl e, io)
           | Inr sck \<Rightarrow>
               if use_ssl io then
                 (if \<not> SSL_SUPPORTED env then (Inl no_tls_error, io)
                  else ssl_wrap_socket env io sck)
               else (Inr sck, io)))"

text \<open>\<^verbatim>\<open>'%d' % n\<close>\<close>

fun str_nat :: "nat \<Rightarrow> string" where
  "str_nat n =
     (if n < 10 then [''0123456789'' ! n]
      else str_nat (n div 10) @ [''0123456789'' ! (n mod 10)])"

declare str_nat.simps [simp del]

definition str_int :: "int \<Rightarrow> string" where
  "str_int i = (if i < 0 then CHR ''-'' # str_nat (nat (- i)) else str_nat (nat i))"

definition could_not_connect :: "io \<Rightarrow> pyexc" where
  "could_not_connect io =
     Exc AMQPConnectionError
       [PStr (''Could not connect to '' @ hostname (parameters io) @ '':''
              @ str_int (port (parameters io)))]"

text \<open>\<^verbatim>\<open>address[4]\<close>\<close>

definition sockaddr_of :: "addrinfo \<Rightarrow> sockaddr" where
  "sockaddr_of address = snd (snd (snd (snd address)))"

fun find_address_and_connect ::
  "env \<Rightarrow> io \<Rightarrow> addrinfo list \<Rightarrow> event list \<times> (pyexc + sock) \<times> io" where
  "find_address_and_connect env io [] = ([], Inl (could_not_connect io), io)"
| "find_address_and_connect env io (address # addresses) =
     (case create_socket env io (fst address) of
        (Inl e, io') \<Rightarrow> ([], Inl e, io')
      | (Inr sck, io') \<Rightarrow>
          (let target = sockaddr_of address;
               ev = EvConnect sck target (connect env target)
           in case connect env target of
                Some why \<Rightarrow>
                  if is_IOError_or_OSError why then
                    (case find_address_and_connect env io' addresses of
                       (evs, r, io'') \<Rightarrow> (ev # evs, r, io''))
                  else ([ev], Inl why, io')
              | None \<Rightarrow> ([ev], Inr (sck\<lparr>peer := Some target\<rparr>), io')))"

text \<open>The inbound thread is created and started; its run is the reader loop above,
  concurrent with the caller and not part of \<^verbatim>\<open>open\<close>'s own result.\<close>

definition create_inbound_thread :: thread where
  "create_inbound_thread = Thread ''amqpstorm.io'' True"

definition open_io :: "env \<Rightarrow> io \<Rightarrow> event list \<times> completion \<times> io" where
  "open_io env io =
     (let io1 = io\<lparr>data_in := EMPTY_BUFFER, running := True\<rparr> in
      case get_socket_addresses env io1 of
        (evs, Inl e) \<Rightarrow> (evs, Raises e, io1)
      | (evs, Inr sock_addresses) \<Rightarrow>
          (case find_address_and_connect env io1 sock_addresses of
             (evs', Inl e, io2) \<Rightarrow> (evs @ evs', Raises e, io2)
           | (evs', Inr s, io2) \<Rightarrow>
               (evs @ evs', Returns,
                io2\<lparr>socket := Some s, poller := Some (Poller s),
                    inbound_thread := Some create_inbound_thread\<rparr>)))"

section \<open>Observations on runs, and example transports\<close>

text \<open>What \<^verbatim>\<open>_close_socket\<close> swallows: a \<^verbatim>\<open>shutdown\<close> or \<^verbatim>\<open>close\<close> that returns, or
  raises an \<^verbatim>\<open>OSError\<close> or a \<^verbatim>\<open>socket.error\<close>.\<close>

definition swallowed :: "pyexc option \<Rightarrow> bool" where
  "swallowed r = (case r of None \<Rightarrow> True | Some e \<Rightarrow> is_OSError_or_socket_error e)"




definition example_parameters :: parameters where
  "example_parameters =
     \<lparr>hostname = ''localhost'', port = 1234, timeout = Some 30, ssl = False,
      ssl_options = Map.empty\<rparr>"

definition example_socket :: sock where
  "example_socket =
     \<lparr>family = AF_INET, kind = SOCK_STREAM, proto = 0, timeout_setting = Some 30,
      ssl_wrapped = None, peer = Some (''127.0.0.1'', 1234)\<rparr>"

text \<open>A transport as \<^verbatim>\<open>open\<close> leaves it, with the given error sink and a frame
  consumer that uses up everything it is given.\<close>

definition opened_io :: "pyexc list option \<Rightarrow> io" where
  "opened_io excs =
     (IO example_parameters excs (Some (\<lambda>data. [])))
       \<lparr>running := True, socket := Some example_socket,
        poller := Some (Poller example_socket),
        inbound_thread := Some create_inbound_thread\<rparr>"

text \<open>The same transport with a frame consumer that always leaves the two bytes
  \<^verbatim>\<open>xy\<close> unconsumed.\<close>

definition remainder_io :: "pyexc list option \<Rightarrow> io" where
  "remainder_io excs = (opened_io excs)\<lparr>on_read_impl := Some (\<lambda>data. ''xy'')\<rparr>"

definition address_v6 :: addrinfo where
  "address_v6 = (AF_INET6, SOCK_STREAM, 6, [], (''::1'', 1234))"

definition address_v4 :: addrinfo where
  "address_v4 = (AF_INET, SOCK_STREAM, 6, [], (''127.0.0.1'', 1234))"

text \<open>A platform on which the resolver finds both addresses and only the IPv4 one
  accepts the connection.\<close>

definition example_env :: env where
  "example_env =
     \<lparr>has_ipv6 = True,
      getaddrinfo = (\<lambda>host prt fam knd. Inr [address_v6, address_v4]),
      socket_socket = (\<lambda>fam. None),
      wrap_socket = (\<lambda>opts. None),
      connect = (\<lambda>a. if a = (''::1'', 1234)
                      then Some (Exc Socket_error [PInt 111, PStr ''Connection refused''])
                      else None),
      SSL_SUPPORTED = True,
      DEFAULT_SSL_VERSION = PInt 3\<rparr>"

text \<open>The first argument of an error, as the handlers read it: one of the two errno
  values, or something else. An error with no argument is neither.\<close>

definition first_arg_transient :: "pyexc \<Rightarrow> bool" where
  "first_arg_transient why =
     (case args why of [] \<Rightarrow> False | a # _ \<Rightarrow> in_EWOULDBLOCK_EAGAIN a)"

definition first_arg_other :: "pyexc \<Rightarrow> bool" where
  "first_arg_other why =
     (case args why of [] \<Rightarrow> False | a # _ \<Rightarrow> \<not> in_EWOULDBLOCK_EAGAIN a)"


definition read_fatal :: "pyexc \<Rightarrow> bool" where
  "read_fatal why =
     (\<not> is_socket_timeout why \<and> is_IOError_or_OSError why \<and> first_arg_other why)"

text \<open>The reader loop hands the buffer on from one call of the frame consumer to the
  next: each call gets what the call before it returned (the buffer at the start, for
  the first call), followed by the bytes the \<^verbatim>\<open>recv\<close> of its own pass returned.\<close>

fun carried_over :: "bytes \<Rightarrow> bytes \<Rightarrow> event list \<Rightarrow> bool" where
  "carried_over buf got [] = True"
| "carried_over buf got (EvRecv n (RecvReturns d) # evs) = carried_over buf d evs"
| "carried_over buf got (EvRecv n (RecvRaises why) # evs) = carried_over buf [] evs"
| "carried_over buf got (EvConsume inp out # evs) =
     (inp = buf @ got \<and> carried_over out [] evs)"
| "carried_over buf got (_ # evs) = carried_over buf got evs"

text \<open>A \<^verbatim>\<open>select\<close> that reports every descriptor it was asked to read as readable.\<close>

definition readable :: select_impl where
  "readable = (\<lambda>a. (fst a, [], []))"

text \<open>For a send: \<^verbatim>\<open>socket.timeout\<close>, or a \<^verbatim>\<open>socket.error\<close> whose first argument is
  \<^verbatim>\<open>EWOULDBLOCK\<close> or \<^verbatim>\<open>EAGAIN\<close>; and any other \<^verbatim>\<open>socket.error\<close> that has a first
  argument.\<close>

definition write_transient :: "pyexc \<Rightarrow> bool" where
  "write_transient why =
     (is_socket_timeout why \<or> (is_socket_error why \<and> first_arg_transient why))"

definition write_fatal :: "pyexc \<Rightarrow> bool" where
  "write_fatal why =
     (\<not> is_socket_timeout why \<and> is_socket_error why \<and> first_arg_other why)"

text \<open>The cursor after a list of calls, from the number of bytes each \<^verbatim>\<open>send\<close>
  reported; whether each \<^verbatim>\<open>send\<close> was given the buffer from the cursor on; and the
  bytes the successful \<^verbatim>\<open>send\<close> calls took, in order.\<close>

fun accepted_by :: "send_result \<Rightarrow> int" where
  "accepted_by (SendReturns n) = n"
| "accepted_by (SendRaises why) = 0"

fun cursor_after :: "int \<Rightarrow> event list \<Rightarrow> int" where
  "cursor_after c [] = c"
| "cursor_after c (EvSend slice r # evs) = cursor_after (c + accepted_by r) evs"
| "cursor_after c (_ # evs) = cursor_after c evs"

fun sends_at_cursor :: "bytes \<Rightarrow> int \<Rightarrow> event list \<Rightarrow> bool" where
  "sends_at_cursor frame_data c [] = True"
| "sends_at_cursor frame_data c (EvSend slice r # evs) =
     (slice = slice_from frame_data c \<and> sends_at_cursor frame_data (c + accepted_by r) evs)"
| "sends_at_cursor frame_data c (_ # evs) = sends_at_cursor frame_data c evs"

fun sent_bytes :: "event list \<Rightarrow> bytes" where
  "sent_bytes [] = []"
| "sent_bytes (EvSend slice (SendReturns n) # evs) = take (nat n) slice @ sent_bytes evs"
| "sent_bytes (_ # evs) = sent_bytes evs"

text \<open>A call that went well for the writer: a readiness wait that reported no
  exceptional condition, a \<^verbatim>\<open>send\<close> that took at least one byte and no more than it
  was given, or a \<^verbatim>\<open>send\<close> that raised a transient condition.\<close>

fun cooperative :: "event \<Rightarrow> bool" where
  "cooperative (EvSelect a (rlist, wlist, xlist)) = (xlist = [])"
| "cooperative (EvSend slice (SendReturns n)) = (0 < n \<and> n \<le> int (length slice))"
| "cooperative (EvSend slice (SendRaises why)) = write_transient why"
| "cooperative _ = True"

text \<open>A \<^verbatim>\<open>send\<close> that ends the write: it took no byte, or raised a socket error that
  is not transient; and the error that goes into the sink for it.\<close>

fun fatal_send :: "event \<Rightarrow> bool" where
  "fatal_send (EvSend slice (SendReturns n)) = (n = 0)"
| "fatal_send (EvSend slice (SendRaises why)) = write_fatal why"
| "fatal_send _ = False"

fun fatal_cause :: "event \<Rightarrow> pyexc" where
  "fatal_cause (EvSend slice (SendRaises why)) = why"
| "fatal_cause _ = socket_error_literal"

text \<open>A readiness wait that reported an exceptional condition; and any call that ends
  the write.\<close>

fun fatal_wait :: "event \<Rightarrow> bool" where
  "fatal_wait (EvSelect a (rlist, wlist, xlist)) = (xlist \<noteq> [])"
| "fatal_wait _ = False"

definition fatal_event :: "event \<Rightarrow> bool" where
  "fatal_event ev = (fatal_send ev \<or> fatal_wait ev)"

text \<open>A script that lets the writer finish: no answer to a readiness wait reports
  an exceptional condition; every answer to a \<^verbatim>\<open>send\<close> takes at least one byte or
  raises a transient condition; there are at least as many answers that take a byte
  as the buffer has bytes; and at least as many waits that report the socket writable
  as there are answers to \<^verbatim>\<open>send\<close>.\<close>

definition calm_answer :: "poller \<Rightarrow> select_impl \<Rightarrow> bool" where
  "calm_answer p select =
     (case select (poll_write p) of (rlist, wlist, xlist) \<Rightarrow> xlist = [])"

definition ready_answer :: "poller \<Rightarrow> select_impl \<Rightarrow> bool" where
  "ready_answer p select =
     (case select (poll_write p) of (rlist, wlist, xlist) \<Rightarrow> wlist \<noteq> [] \<and> xlist = [])"

fun send_succeeds :: "send_result \<Rightarrow> bool" where
  "send_succeeds (SendReturns n) = (0 < n)"
| "send_succeeds (SendRaises why) = False"

fun send_transient :: "send_result \<Rightarrow> bool" where
  "send_transient (SendRaises why) = write_transient why"
| "send_transient (SendReturns n) = False"

definition enough_script ::
  "poller \<Rightarrow> bytes \<Rightarrow> select_impl list \<Rightarrow> send_result list \<Rightarrow> bool" where
  "enough_script p frame_data sels snds =
     ((\<forall>select\<in>set sels. calm_answer p select)
      \<and> (\<forall>r\<in>set snds. send_succeeds r \<or> send_transient r)
      \<and> length frame_data \<le> length (filter send_succeeds snds)
      \<and> length snds \<le> length (filter (ready_answer p) sels))"

text \<open>A \<^verbatim>\<open>select\<close> that reports every descriptor it was asked to write as writable, and
  one that reports an exceptional condition on every descriptor it was asked about.\<close>

definition writable :: select_impl where
  "writable = (\<lambda>a. ([], fst (snd a), []))"

definition exceptional :: select_impl where
  "exceptional = (\<lambda>a. ([], [], fst (snd (snd a))))"

section \<open>Properties\<close>

text \<open>
  C9. A call of \<^verbatim>\<open>write_to_socket\<close> with an empty buffer returns at once: it waits
  for no readiness, sends nothing and leaves the transport, its error sink included,
  as it was. This holds for every transport, also one with no socket and one with no
  sink: the check for a missing socket sits inside the loop, which is never entered.
\<close>

theorem write_to_socket_empty_buffer:
  "write_to_socket io [] sels snds = ([], Some (Returns, io, 0))"
  by (cases sels) (simp_all add: write_to_socket_def)

text \<open>
  C7. \<^verbatim>\<open>ready_to_write\<close> waits on the descriptor for reading, writing and exceptional
  conditions with the fixed poll timeout; it raises the socket error when the
  exceptional list comes back non-empty, and returns the writable list (true exactly
  when it is non-empty) otherwise. \<^verbatim>\<open>ready_to_read\<close> waits on the descriptor for
  reading only, with the same timeout, asks for no exceptional condition, never
  raises, and returns the readable list.
\<close>

theorem poller_readiness:
  "ready_to_write (Poller fd) select =
     (case select ([fd], [fd], [fd], POLL_TIMEOUT) of
        (rlist, wlist, xlist) \<Rightarrow> if xlist = [] then Inr wlist else Inl socket_error_literal)
   \<and> is_socket_error socket_error_literal
   \<and> ready_to_read (Poller fd) select = fst (select ([fd], [], [], POLL_TIMEOUT))"
  by (simp add: ready_to_write_def ready_to_read_def Poller_def is_socket_error_def
      socket_error_literal_def split: prod.splits)

text \<open>
  C8. On every transport, opened or not, \<^verbatim>\<open>close\<close> returns without raising when
  \<^verbatim>\<open>shutdown\<close> and \<^verbatim>\<open>close\<close> of the socket return or raise an \<^verbatim>\<open>OSError\<close> or a socket
  error: the Running Flag is cleared, the inbound thread is joined if there is one,
  the socket is shut down and (if that returned) closed if there is one, and the
  socket, poller and thread references are \<open>None\<close> afterwards. A second \<^verbatim>\<open>close\<close>
  then does nothing and leaves the same state.
\<close>

theorem close_clears_and_is_idempotent:
  assumes "swallowed sd" and "swallowed cl"
  shows "close io sd cl =
           ((case inbound_thread io of Some t \<Rightarrow> [EvJoin t] | None \<Rightarrow> []) @
            (case socket io of
               None \<Rightarrow> []
             | Some s \<Rightarrow> EvShutdown s sd # (if sd = None then [EvClose s cl] else [])),
            Returns,
            io\<lparr>running := False, inbound_thread := None, poller := None, socket := None\<rparr>)
         \<and> close (io\<lparr>running := False, inbound_thread := None, poller := None, socket := None\<rparr>)
               sd' cl' =
             ([], Returns,
              io\<lparr>running := False, inbound_thread := None, poller := None, socket := None\<rparr>)"
  using assms
  by (auto simp: close_def close_socket_def swallowed_def Let_def split: option.splits)

theorem close_clears_and_is_idempotent_witness:
  "swallowed (Some (Exc OSError []))
   \<and> close (opened_io (Some [])) (Some (Exc OSError [])) None =
       ([EvJoin create_inbound_thread, EvShutdown example_socket (Some (Exc OSError []))],
        Returns,
        (opened_io (Some []))
          \<lparr>running := False, inbound_thread := None, poller := None, socket := None\<rparr>)"
proof -
  have h1: "swallowed (Some (Exc OSError []))"
    by (simp add: swallowed_def is_OSError_or_socket_error_def)
  have h2: "swallowed None"
    by (simp add: swallowed_def)
  show ?thesis
    using h1 close_clears_and_is_idempotent [OF h1 h2, of "opened_io (Some [])"]
    by (simp add: opened_io_def IO_def)
qed

text \<open>
  C6. The resolver is asked for \<^verbatim>\<open>AF_UNSPEC\<close> when the platform has IPv6 and for
  \<^verbatim>\<open>AF_INET\<close> when it has not. When the resolver fails (\<^verbatim>\<open>socket.gaierror\<close>),
  \<^verbatim>\<open>open\<close> raises an \<^verbatim>\<open>AMQPConnectionError\<close> that wraps the resolver's own error, after
  the one resolver call and no connection attempt.
\<close>

theorem resolver_failure:
  "fst (get_socket_addresses env io) =
     [EvGetaddrinfo (hostname (parameters io)) (port (parameters io))
        (if has_ipv6 env then AF_UNSPEC else AF_INET) SOCK_STREAM]
   \<and> (\<forall>why. getaddrinfo env (hostname (parameters io)) (port (parameters io))
              (if has_ipv6 env then AF_UNSPEC else AF_INET) SOCK_STREAM = Inl why
            \<and> is_socket_gaierror why \<longrightarrow>
          open_io env io =
            ([EvGetaddrinfo (hostname (parameters io)) (port (parameters io))
                (if has_ipv6 env then AF_UNSPEC else AF_INET) SOCK_STREAM],
             Raises (Exc AMQPConnectionError [PExc why]),
             io\<lparr>data_in := EMPTY_BUFFER, running := True\<rparr>))"
  by (auto simp: get_socket_addresses_def open_io_def Let_def)

theorem resolver_failure_witness:
  "open_io
     (example_env\<lparr>getaddrinfo :=
        (\<lambda>host prt fam knd. Inl (Exc Socket_gaierror [PStr ''could not connect'']))\<rparr>)
     (IO example_parameters None None) =
     ([EvGetaddrinfo ''localhost'' 1234 AF_UNSPEC SOCK_STREAM],
      Raises (Exc AMQPConnectionError [PExc (Exc Socket_gaierror [PStr ''could not connect''])]),
      (IO example_parameters None None)\<lparr>data_in := EMPTY_BUFFER, running := True\<rparr>)"
  using resolver_failure
    [of "example_env\<lparr>getaddrinfo :=
           (\<lambda>host prt fam knd. Inl (Exc Socket_gaierror [PStr ''could not connect'']))\<rparr>"
        "IO example_parameters None None"]
  by (simp add: example_env_def IO_def example_parameters_def is_socket_gaierror_def)

subsection \<open>Connecting to the first address that accepts\<close>











subsection \<open>The receive step and the reader loop\<close>



lemma receive_except_fatal_no_sink:
  "read_fatal why \<Longrightarrow> exceptions io = None \<Longrightarrow>
   receive_except io why = (Inl (none_attribute_error ''append''), io)"
  by (auto simp: receive_except_def read_fatal_def first_arg_other_def split: list.splits)

lemma read_fatal_literal: "read_fatal socket_error_literal"
  by (simp add: read_fatal_def socket_error_literal_def is_socket_timeout_def
      is_IOError_or_OSError_def first_arg_other_def in_EWOULDBLOCK_EAGAIN_def)

lemma receive_except_cases:
  assumes "receive_except io why = (r, io')"
  shows "io' = io \<or>
         (\<exists>es. exceptions io = Some es \<and> r = Inr EMPTY_BUFFER \<and>
            io' = io\<lparr>exceptions := Some (es @ [Exc AMQPConnectionError [PExc why]]),
                      running := False\<rparr>)"
  using assms
  by (auto simp: receive_except_def split: if_splits list.splits option.splits)

lemma receive_cases:
  assumes "receive mfs io recvs = Some (evs, r, io', recvs')"
  shows "io' = io \<or>
         (\<exists>es why. exceptions io = Some es \<and> r = Inr EMPTY_BUFFER \<and>
            io' = io\<lparr>exceptions := Some (es @ [Exc AMQPConnectionError [PExc why]]),
                      running := False\<rparr>)"
proof (cases "socket io")
  case None
  with assms obtain r0 io0 where "receive_except io socket_error_literal = (r0, io0)"
    "r = r0" "io' = io0"
    by (auto simp: receive_def split: prod.splits)
  with receive_except_cases [of io socket_error_literal r0 io0] show ?thesis by blast
next
  case (Some s)
  show ?thesis
  proof (cases recvs)
    case Nil
    with Some assms show ?thesis by (simp add: receive_def)
  next
    case (Cons recv rest)
    show ?thesis
    proof (cases "recv mfs")
      case (RecvReturns d)
      with Some Cons assms show ?thesis by (simp add: receive_def Let_def)
    next
      case (RecvRaises why)
      with Some Cons assms obtain r0 io0 where "receive_except io why = (r0, io0)"
        "r = r0" "io' = io0"
        by (auto simp: receive_def Let_def split: prod.splits)
      with receive_except_cases [of io why r0 io0] show ?thesis by blast
    qed
  qed
qed







subsection \<open>The inbound buffer\<close>

lemma receive_keeps:
  assumes "receive mfs io recvs = Some (evs, r, io', recvs')"
  shows "data_in io' = data_in io \<and> on_read_impl io' = on_read_impl io
         \<and> poller io' = poller io"
  using receive_cases [OF assms] by auto

lemma receive_events:
  assumes "receive mfs io recvs = Some (evs, Inr d, io', recvs')"
  shows "(evs = [] \<and> d = []) \<or> evs = [EvRecv mfs (RecvReturns d)]
         \<or> (\<exists>why. evs = [EvRecv mfs (RecvRaises why)] \<and> d = [])"
proof (cases "socket io")
  case None
  with assms show ?thesis
    using receive_except_cases [of io socket_error_literal]
    by (auto simp: receive_def receive_except_def EMPTY_BUFFER_def
        split: prod.splits if_splits list.splits option.splits)
next
  case (Some s)
  with assms show ?thesis
    by (auto simp: receive_def Let_def receive_except_def EMPTY_BUFFER_def
        split: prod.splits if_splits list.splits option.splits recv_result.splits)
qed

lemma process_body_ready:
  assumes "poller io = Some p" and "ready_to_read p select \<noteq> []"
    and "receive mfs io recvs = Some (evs, Inr d, io1, recvs')"
    and "on_read_impl io = Some f"
  shows "process_body mfs io (Some select) recvs =
           (EvSelect (poll_read p) (select (poll_read p)) # evs
              @ [EvConsume (data_in io @ d) (f (data_in io @ d))],
            RNext (io1\<lparr>data_in := f (data_in io @ d)\<rparr>) recvs')"
  using assms receive_keeps [OF assms(3)]
  by (simp add: process_body_def Let_def)

lemma process_body_shape:
  assumes "process_body mfs io selo recvs = (evs, RNext io' recvs')"
  shows "(\<exists>ev. evs = [ev] \<and> (\<forall>n r. ev \<noteq> EvRecv n r) \<and> (\<forall>i out. ev \<noteq> EvConsume i out)
            \<and> io' = io) \<or>
         (\<exists>ev evs1 d io1 f.
            evs = ev # evs1 @ [EvConsume (data_in io @ d) (f (data_in io @ d))]
            \<and> (\<forall>n r. ev \<noteq> EvRecv n r) \<and> (\<forall>i out. ev \<noteq> EvConsume i out)
            \<and> receive mfs io recvs = Some (evs1, Inr d, io1, recvs')
            \<and> on_read_impl io = Some f \<and> io' = io1\<lparr>data_in := f (data_in io @ d)\<rparr>)"
proof -
  from assms obtain p select where p: "poller io = Some p" "selo = Some select"
    by (auto simp: process_body_def split: option.splits)
  show ?thesis
  proof (cases "ready_to_read p select = []")
    case True
    with assms p show ?thesis by (auto simp: process_body_def Let_def)
  next
    case False
    with assms p obtain evs1 d io1 f where
      r: "receive mfs io recvs = Some (evs1, Inr d, io1, recvs')"
      and f: "on_read_impl io1 = Some f"
      by (auto simp: process_body_def Let_def split: option.splits prod.splits sum.splits)
    from receive_keeps [OF r] f have f': "on_read_impl io = Some f" by simp
    from process_body_ready [OF p(1) False r f'] assms p show ?thesis
      using r f' by auto
  qed
qed

lemma process_body_stop_buffer:
  assumes "process_body mfs io selo recvs = (evs, RStop c io')"
    and "on_read_impl io = Some f"
  shows "data_in io' = data_in io"
proof (cases "poller io")
  case None
  with assms show ?thesis by (simp add: process_body_def)
next
  case (Some p)
  with assms obtain select where s: "selo = Some select"
    by (auto simp: process_body_def split: option.splits)
  show ?thesis
  proof (cases "receive mfs io recvs")
    case None
    with assms Some s show ?thesis
      by (auto simp: process_body_def Let_def split: if_splits)
  next
    case (Some res)
    obtain evs1 r io1 recvs1 where res: "res = (evs1, r, io1, recvs1)" by (cases res) auto
    from receive_keeps [OF Some [unfolded res]] assms \<open>poller io = Some p\<close> s Some res
    show ?thesis
      by (auto simp: process_body_def Let_def split: if_splits sum.splits)
  qed
qed

lemma carried_over_no_consume:
  "\<forall>ev\<in>set evs. \<forall>i out. ev \<noteq> EvConsume i out \<Longrightarrow> carried_over buf got evs"
  by (induction buf got evs rule: carried_over.induct) auto

lemma carried_over_skip:
  "(\<forall>n r. ev \<noteq> EvRecv n r) \<Longrightarrow> (\<forall>i out. ev \<noteq> EvConsume i out) \<Longrightarrow>
   carried_over buf got (ev # evs) = carried_over buf got evs"
  by (cases ev) auto

lemma carried_over_body:
  assumes "process_body mfs io selo recvs = (evs, RNext io' recvs')"
    and "carried_over (data_in io') [] evs2"
  shows "carried_over (data_in io) [] (evs @ evs2)"
  using process_body_shape [OF assms(1)]
proof (elim disjE exE conjE)
  fix ev assume "evs = [ev]" "\<forall>n r. ev \<noteq> EvRecv n r" "\<forall>i out. ev \<noteq> EvConsume i out" "io' = io"
  with assms(2) show ?thesis by (simp add: carried_over_skip)
next
  fix ev evs1 d io1 f
  assume e: "evs = ev # evs1 @ [EvConsume (data_in io @ d) (f (data_in io @ d))]"
    and n: "\<forall>n r. ev \<noteq> EvRecv n r" "\<forall>i out. ev \<noteq> EvConsume i out"
    and r: "receive mfs io recvs = Some (evs1, Inr d, io1, recvs')"
    and io': "io' = io1\<lparr>data_in := f (data_in io @ d)\<rparr>"
  from receive_events [OF r] e io' assms(2) show ?thesis
    by (auto simp: carried_over_skip [OF n])
qed

lemma carried_over_body_end:
  assumes "process_body mfs io selo recvs = (evs, st)" and "\<forall>io' recvs'. st \<noteq> RNext io' recvs'"
  shows "carried_over (data_in io) [] evs"
proof -
  have "\<forall>ev\<in>set evs. \<forall>i out. ev \<noteq> EvConsume i out"
    using assms
    by (auto simp: process_body_def Let_def receive_def
        split: option.splits if_splits prod.splits sum.splits list.splits recv_result.splits)
  then show ?thesis by (rule carried_over_no_consume)
qed

lemma reader_loop_carries_over:
  "carried_over (data_in io) [] (fst (process_incoming_data mfs io sels recvs))"
proof (induction sels arbitrary: io recvs)
  case Nil
  obtain evs st where b: "process_body mfs io None recvs = (evs, st)"
    by (cases "process_body mfs io None recvs")
  then have "\<forall>io' recvs'. st \<noteq> RNext io' recvs'"
    by (auto simp: process_body_def split: option.splits)
  from carried_over_body_end [OF b this] b show ?case
    by (auto split: rstep.splits)
next
  case (Cons select sels)
  obtain evs st where b: "process_body mfs io (Some select) recvs = (evs, st)"
    by (cases "process_body mfs io (Some select) recvs")
  show ?case
  proof (cases st)
    case (RNext io1 recvs1)
    from carried_over_body [OF b [unfolded RNext] Cons.IH [of io1 recvs1]] b RNext
    show ?thesis by (auto split: prod.splits)
  next
    case (RStop c io1)
    with carried_over_body_end [OF b] b show ?thesis by simp
  next
    case RStarved
    with carried_over_body_end [OF b] b show ?thesis by simp
  qed
qed

lemma process_body_empty_buffer:
  assumes "process_body mfs io selo recvs = (evs, RNext io' recvs')"
    and "on_read_impl io = Some f" and "\<forall>x. f x = []" and "data_in io = []"
  shows "on_read_impl io' = Some f \<and> data_in io' = []"
  using process_body_shape [OF assms(1)]
proof (elim disjE exE conjE)
  fix ev assume "io' = io"
  with assms show ?thesis by simp
next
  fix ev evs1 d io1 g
  assume r: "receive mfs io recvs = Some (evs1, Inr d, io1, recvs')"
    and g: "on_read_impl io = Some g" and io': "io' = io1\<lparr>data_in := g (data_in io @ d)\<rparr>"
  from receive_keeps [OF r] g io' assms show ?thesis by simp
qed

lemma reader_loop_empty_buffer:
  assumes "on_read_impl io = Some f" and "\<forall>x. f x = []" and "data_in io = []"
    and "snd (process_incoming_data mfs io sels recvs) = Some (c, io')"
  shows "data_in io' = []"
  using assms
proof (induction sels arbitrary: io recvs)
  case Nil
  show ?case
  proof (cases "running io")
    case False
    with Nil show ?thesis by simp
  next
    case True
    obtain evs st where b: "process_body mfs io None recvs = (evs, st)"
      by (cases "process_body mfs io None recvs")
    show ?thesis
    proof (cases st)
      case (RStop c1 io1)
      from process_body_stop_buffer [OF b [unfolded RStop] Nil(1)]
      have "data_in io1 = data_in io" .
      moreover from Nil(4) True b RStop have "io' = io1" by simp
      ultimately show ?thesis using Nil(3) by simp
    qed (use Nil True b in simp_all)
  qed
next
  case (Cons select sels)
  show ?case
  proof (cases "running io")
    case False
    with Cons.prems show ?thesis by simp
  next
    case True
    obtain evs st where b: "process_body mfs io (Some select) recvs = (evs, st)"
      by (cases "process_body mfs io (Some select) recvs")
    show ?thesis
    proof (cases st)
      case (RNext io1 recvs1)
      from process_body_empty_buffer [OF b [unfolded RNext] Cons.prems(1,2,3)]
      have i: "on_read_impl io1 = Some f" "data_in io1 = []" by simp_all
      from Cons.prems(4) True b RNext
      have "snd (process_incoming_data mfs io1 sels recvs1) = Some (c, io')"
        by (simp split: prod.splits)
      from Cons.IH [OF i(1) Cons.prems(2) i(2) this] show ?thesis .
    next
      case (RStop c1 io1)
      from process_body_stop_buffer [OF b [unfolded RStop] Cons.prems(1)]
      have "data_in io1 = data_in io" .
      moreover from Cons.prems(4) True b RStop have "io' = io1" by simp
      ultimately show ?thesis using Cons.prems(3) by simp
    next
      case RStarved
      with Cons.prems True b show ?thesis by simp
    qed
  qed
qed

lemma loop_pass_with_consumer:
  assumes "running io" and "poller io = Some p" and "ready_to_read p select \<noteq> []"
    and "receive mfs io recvs = Some (evs, Inr d, io1, recvs')"
    and "on_read_impl io = Some f"
  shows "process_incoming_data mfs io (select # sels) recvs =
           (EvSelect (poll_read p) (select (poll_read p)) # evs
              @ EvConsume (data_in io @ d) (f (data_in io @ d))
              # fst (process_incoming_data mfs (io1\<lparr>data_in := f (data_in io @ d)\<rparr>) sels recvs'),
            snd (process_incoming_data mfs (io1\<lparr>data_in := f (data_in io @ d)\<rparr>) sels recvs'))"
  using assms(1) process_body_ready [OF assms(2-5)]
  by (simp split: prod.splits)

lemma loop_pass_without_consumer:
  assumes "running io" and "poller io = Some p" and "ready_to_read p select \<noteq> []"
    and "receive mfs io recvs = Some (evs, Inr d, io1, recvs')"
    and "on_read_impl io = None"
  shows "process_incoming_data mfs io (select # sels) recvs =
           (EvSelect (poll_read p) (select (poll_read p)) # evs,
            Some (Raises none_call_error, io1\<lparr>data_in := data_in io @ d\<rparr>))"
proof -
  have "process_body mfs io (Some select) recvs =
      (EvSelect (poll_read p) (select (poll_read p)) # evs,
       RStop (Raises none_call_error) (io1\<lparr>data_in := data_in io @ d\<rparr>))"
    using assms(2-5) receive_keeps [OF assms(4)] by (simp add: process_body_def Let_def)
  with assms(1) show ?thesis by simp
qed

lemma loop_pass_receive_raises:
  assumes "running io" and "poller io = Some p" and "ready_to_read p select \<noteq> []"
    and "receive mfs io recvs = Some (evs, Inl why, io1, recvs')"
  shows "process_incoming_data mfs io (select # sels) recvs =
           (EvSelect (poll_read p) (select (poll_read p)) # evs, Some (Raises why, io1))
         \<and> data_in io1 = data_in io"
proof -
  have "process_body mfs io (Some select) recvs =
      (EvSelect (poll_read p) (select (poll_read p)) # evs, RStop (Raises why) io1)"
    using assms(2-4) by (simp add: process_body_def Let_def)
  with assms(1) receive_keeps [OF assms(4)] show ?thesis by simp
qed

text \<open>
  C4, as the code has it. The claim as written fails when no frame consumer was given
  to the constructor: the pass appends the bytes received to the buffer and then
  raises on the call of \<open>None\<close>. Take a pass of the reader loop (the Running Flag is
  set) in which the poller reports the socket readable. If the receive step returns
  bytes and a frame consumer is set, the pass calls the consumer once, on the buffer
  before the pass followed by the bytes received, and the loop goes on from the
  transport the receive step left with the consumer's result as its buffer. If the
  receive step returns bytes and no consumer is set, the loop ends by raising the
  \<^verbatim>\<open>TypeError\<close>, the buffer being the old one followed by the bytes received. If the
  receive step raises, the loop ends by raising the same exception, the buffer
  unchanged. Over a whole run of the loop, every call of the consumer gets exactly what
  the call before it returned, followed by the bytes of its own pass; and with a
  consumer that always returns the empty byte string, a run that starts with an empty
  buffer ends with an empty buffer.
\<close>

theorem reader_iteration_buffer:
  "(\<forall>p select evs d io1 recvs' f.
      running io \<and> poller io = Some p \<and> ready_to_read p select \<noteq> []
      \<and> receive mfs io recvs = Some (evs, Inr d, io1, recvs') \<and> on_read_impl io = Some f \<longrightarrow>
      process_incoming_data mfs io (select # sels) recvs =
        (EvSelect (poll_read p) (select (poll_read p)) # evs
           @ EvConsume (data_in io @ d) (f (data_in io @ d))
           # fst (process_incoming_data mfs (io1\<lparr>data_in := f (data_in io @ d)\<rparr>) sels recvs'),
         snd (process_incoming_data mfs (io1\<lparr>data_in := f (data_in io @ d)\<rparr>) sels recvs')))
   \<and> (\<forall>p select evs d io1 recvs'.
      running io \<and> poller io = Some p \<and> ready_to_read p select \<noteq> []
      \<and> receive mfs io recvs = Some (evs, Inr d, io1, recvs') \<and> on_read_impl io = None \<longrightarrow>
      process_incoming_data mfs io (select # sels) recvs =
        (EvSelect (poll_read p) (select (poll_read p)) # evs,
         Some (Raises none_call_error, io1\<lparr>data_in := data_in io @ d\<rparr>)))
   \<and> (\<forall>p select evs why io1 recvs'.
      running io \<and> poller io = Some p \<and> ready_to_read p select \<noteq> []
      \<and> receive mfs io recvs = Some (evs, Inl why, io1, recvs') \<longrightarrow>
      process_incoming_data mfs io (select # sels) recvs =
        (EvSelect (poll_read p) (select (poll_read p)) # evs, Some (Raises why, io1))
      \<and> data_in io1 = data_in io)
   \<and> carried_over (data_in io) [] (fst (process_incoming_data mfs io sels recvs))
   \<and> (\<forall>f c io'.
        on_read_impl io = Some f \<and> (\<forall>x. f x = []) \<and> data_in io = []
        \<and> snd (process_incoming_data mfs io sels recvs) = Some (c, io') \<longrightarrow>
        data_in io' = [])"
proof (intro conjI allI impI)
  fix p select evs d io1 recvs' f
  assume "running io \<and> poller io = Some p \<and> ready_to_read p select \<noteq> []
      \<and> receive mfs io recvs = Some (evs, Inr d, io1, recvs') \<and> on_read_impl io = Some f"
  then show "process_incoming_data mfs io (select # sels) recvs =
        (EvSelect (poll_read p) (select (poll_read p)) # evs
           @ EvConsume (data_in io @ d) (f (data_in io @ d))
           # fst (process_incoming_data mfs (io1\<lparr>data_in := f (data_in io @ d)\<rparr>) sels recvs'),
         snd (process_incoming_data mfs (io1\<lparr>data_in := f (data_in io @ d)\<rparr>) sels recvs'))"
    using loop_pass_with_consumer [of io p select mfs recvs evs d io1 recvs' f sels] by blast
next
  fix p select evs d io1 recvs'
  assume "running io \<and> poller io = Some p \<and> ready_to_read p select \<noteq> []
      \<and> receive mfs io recvs = Some (evs, Inr d, io1, recvs') \<and> on_read_impl io = None"
  then show "process_incoming_data mfs io (select # sels) recvs =
        (EvSelect (poll_read p) (select (poll_read p)) # evs,
         Some (Raises none_call_error, io1\<lparr>data_in := data_in io @ d\<rparr>))"
    using loop_pass_without_consumer [of io p select mfs recvs evs d io1 recvs' sels] by blast
next
  fix p select evs why io1 recvs'
  assume h: "running io \<and> poller io = Some p \<and> ready_to_read p select \<noteq> []
      \<and> receive mfs io recvs = Some (evs, Inl why, io1, recvs')"
  note r = loop_pass_receive_raises [of io p select mfs recvs evs why io1 recvs' sels]
  from h r show "process_incoming_data mfs io (select # sels) recvs =
        (EvSelect (poll_read p) (select (poll_read p)) # evs, Some (Raises why, io1))"
    by blast
  from h r show "data_in io1 = data_in io" by blast
next
  show "carried_over (data_in io) [] (fst (process_incoming_data mfs io sels recvs))"
    by (rule reader_loop_carries_over)
next
  fix f c io'
  assume "on_read_impl io = Some f \<and> (\<forall>x. f x = []) \<and> data_in io = []
        \<and> snd (process_incoming_data mfs io sels recvs) = Some (c, io')"
  then show "data_in io' = []"
    using reader_loop_empty_buffer [of io f mfs sels recvs c io'] by blast
qed

lemma remainder_io_fields:
  "running (remainder_io excs)" "socket (remainder_io excs) = Some example_socket"
  "poller (remainder_io excs) = Some (Poller example_socket)"
  "on_read_impl (remainder_io excs) = Some (\<lambda>data. ''xy'')"
  "data_in (remainder_io excs) = []" "exceptions (remainder_io excs) = excs"
  by (simp_all add: remainder_io_def opened_io_def IO_def EMPTY_BUFFER_def)

lemma readable_example [simp]:
  "readable ([example_socket], [], [], POLL_TIMEOUT) = ([example_socket], [], [])"
  "poll_read (Poller example_socket) = ([example_socket], [], [], POLL_TIMEOUT)"
  by (simp_all add: readable_def Poller_def)

text \<open>The second pass of a run of two passes, the consumer leaving the same two
  bytes each time, until the script runs out.\<close>

lemma remainder_run_second_pass:
  "process_incoming_data 131072 ((remainder_io (Some []))\<lparr>data_in := ''xy''\<rparr>) [readable]
     [\<lambda>n. RecvReturns ''def''] =
     ([EvSelect ([example_socket], [], [], POLL_TIMEOUT) ([example_socket], [], []),
       EvRecv 131072 (RecvReturns ''def''), EvConsume ''xydef'' ''xy''],
      None)"
  by (simp add: remainder_io_fields process_body_def receive_def ready_to_read_def Let_def)

theorem reader_iteration_buffer_witness:
  "process_incoming_data 131072 (remainder_io (Some [])) [readable, readable]
     [\<lambda>n. RecvReturns ''abc'', \<lambda>n. RecvReturns ''def''] =
     ([EvSelect ([example_socket], [], [], POLL_TIMEOUT) ([example_socket], [], []),
       EvRecv 131072 (RecvReturns ''abc''), EvConsume ''abc'' ''xy'',
       EvSelect ([example_socket], [], [], POLL_TIMEOUT) ([example_socket], [], []),
       EvRecv 131072 (RecvReturns ''def''), EvConsume ''xydef'' ''xy''],
      None)
   \<and> (\<exists>c io'.
        snd (process_incoming_data 131072 (opened_io (Some [])) [readable, readable]
               [\<lambda>n. RecvReturns ''abc'', \<lambda>n. RecvRaises (Exc Socket_error [PStr ''travis-ci''])])
          = Some (c, io')
        \<and> data_in io' = [])"
proof -
  let ?io = "remainder_io (Some [])"
  have rd: "ready_to_read (Poller example_socket) readable \<noteq> []"
    by (simp add: ready_to_read_def)
  have rc: "receive 131072 ?io [\<lambda>n. RecvReturns ''abc'', \<lambda>n. RecvReturns ''def''] =
      Some ([EvRecv 131072 (RecvReturns ''abc'')], Inr ''abc'', ?io, [\<lambda>n. RecvReturns ''def''])"
    by (simp add: receive_def remainder_io_fields Let_def)
  note a = reader_iteration_buffer [of ?io 131072
      "[\<lambda>n. RecvReturns ''abc'', \<lambda>n. RecvReturns ''def'']" "[readable]",
      THEN conjunct1, rule_format,
      of "Poller example_socket" readable "[EvRecv 131072 (RecvReturns ''abc'')]"
        "''abc''" ?io "[\<lambda>n. RecvReturns ''def'']" "\<lambda>data. ''xy''"]
  have first: "process_incoming_data 131072 (remainder_io (Some [])) [readable, readable]
     [\<lambda>n. RecvReturns ''abc'', \<lambda>n. RecvReturns ''def''] =
     ([EvSelect ([example_socket], [], [], POLL_TIMEOUT) ([example_socket], [], []),
       EvRecv 131072 (RecvReturns ''abc''), EvConsume ''abc'' ''xy'',
       EvSelect ([example_socket], [], [], POLL_TIMEOUT) ([example_socket], [], []),
       EvRecv 131072 (RecvReturns ''def''), EvConsume ''xydef'' ''xy''],
      None)"
    using a rd rc remainder_io_fields [of "Some []"] remainder_run_second_pass by simp
  let ?eio = "opened_io (Some [])"
  have f: "on_read_impl ?eio = Some (\<lambda>data. [])" and d: "data_in ?eio = []"
    by (simp_all add: opened_io_def IO_def EMPTY_BUFFER_def)
  let ?run = "process_incoming_data 131072 ?eio [readable, readable]
               [\<lambda>n. RecvReturns ''abc'', \<lambda>n. RecvRaises (Exc Socket_error [PStr ''travis-ci''])]"
  have "\<exists>c io'. snd ?run = Some (c, io')"
    by (simp add: opened_io_def IO_def process_body_def receive_def receive_except_def
        ready_to_read_def Let_def is_socket_timeout_def
        is_IOError_or_OSError_def in_EWOULDBLOCK_EAGAIN_def)
  then obtain c io' where r: "snd ?run = Some (c, io')" by blast
  note b = reader_iteration_buffer [of ?eio 131072 "[\<lambda>n. RecvReturns ''abc'',
        \<lambda>n. RecvRaises (Exc Socket_error [PStr ''travis-ci''])]" "[readable, readable]",
      THEN conjunct2, THEN conjunct2, THEN conjunct2, THEN conjunct2, rule_format,
      of "\<lambda>data. []" c io']
  have "data_in io' = []" using b f d r by simp
  with r have "\<exists>c io'. snd ?run = Some (c, io') \<and> data_in io' = []" by blast
  with first show ?thesis by (rule conjI)
qed

text \<open>On a transport with no frame consumer (the default of the constructor), a pass
  that receives three bytes ends with the bytes in the buffer and a \<^verbatim>\<open>TypeError\<close>.\<close>

theorem reader_pass_without_consumer:
  "on_read_impl ((opened_io (Some []))\<lparr>on_read_impl := None\<rparr>) = None
   \<and> process_incoming_data 131072 ((opened_io (Some []))\<lparr>on_read_impl := None\<rparr>) [readable]
       [\<lambda>n. RecvReturns ''abc''] =
       ([EvSelect ([example_socket], [], [], POLL_TIMEOUT) ([example_socket], [], []),
         EvRecv 131072 (RecvReturns ''abc'')],
        Some (Raises none_call_error,
              (opened_io (Some []))\<lparr>on_read_impl := None, data_in := ''abc''\<rparr>))"
  by (simp add: opened_io_def IO_def process_body_def receive_def ready_to_read_def Let_def
      EMPTY_BUFFER_def)

subsection \<open>The writer\<close>

lemma write_fatal_literal: "write_fatal socket_error_literal"
  by (simp add: write_fatal_def socket_error_literal_def is_socket_timeout_def
      is_socket_error_def first_arg_other_def in_EWOULDBLOCK_EAGAIN_def)

lemma after_except_fatal:
  "write_fatal why \<Longrightarrow> exceptions io = Some es \<Longrightarrow>
   after_except io w snds why =
     Stop Returns (io\<lparr>exceptions := Some (es @ [Exc AMQPConnectionError [PExc why]])\<rparr>)"
  by (auto simp: after_except_def write_except_def write_fatal_def first_arg_other_def
      split: list.splits)

lemma after_except_fatal_no_sink:
  "write_fatal why \<Longrightarrow> exceptions io = None \<Longrightarrow>
   after_except io w snds why = Stop (Raises (none_attribute_error ''append'')) io"
  by (auto simp: after_except_def write_except_def write_fatal_def first_arg_other_def
      split: list.splits)

lemma after_except_transient:
  "write_transient why \<Longrightarrow> after_except io w snds why = Next w snds"
  by (auto simp: after_except_def write_except_def write_transient_def first_arg_transient_def
      is_socket_timeout_def is_socket_error_def split: list.splits)

lemma after_except_Next:
  "after_except io w snds why = Next w' snds' \<Longrightarrow> w' = w \<and> snds' = snds \<and> \<not> write_fatal why"
  by (auto simp: after_except_def write_except_def write_fatal_def first_arg_other_def
      split: if_splits list.splits option.splits)

lemma after_except_Next_sym:
  "Next w' snds' = after_except io w snds why \<Longrightarrow> w' = w \<and> snds' = snds \<and> \<not> write_fatal why"
  using after_except_Next [of io w snds why w' snds'] by simp

lemma after_except_not_Starved: "after_except io w snds why \<noteq> Starved"
  by (simp add: after_except_def split: handled.splits)

text \<open>The shapes a pass through the loop body can take.\<close>

lemma write_body_cases:
  assumes "write_body io frame w selo snds = (evs, st)"
  obtains
    (no_socket) "socket io = None" "evs = []" "st = after_except io w snds socket_error_literal"
  | (no_poller) "poller io = None" "evs = []"
      "st = Stop (Raises (none_attribute_error ''ready_to_write'')) io"
  | (starved) "evs = []" "st = Starved"
  | (exceptional) a r wl x where "evs = [EvSelect a (r, wl, x)]" "x \<noteq> []"
      "st = after_except io w snds socket_error_literal"
  | (not_ready) a r where "evs = [EvSelect a (r, [], [])]" "st = Next w snds"
  | (no_answer) a r wl where "evs = [EvSelect a (r, wl, [])]" "st = Starved"
  | (raised) a r wl why snds' where
      "evs = [EvSelect a (r, wl, []), EvSend (slice_from frame w) (SendRaises why)]"
      "st = after_except io w snds' why"
  | (zero) a r wl snds' where
      "evs = [EvSelect a (r, wl, []), EvSend (slice_from frame w) (SendReturns 0)]"
      "st = after_except io w snds' socket_error_literal"
  | (sent) a r wl n snds' where
      "evs = [EvSelect a (r, wl, []), EvSend (slice_from frame w) (SendReturns n)]"
      "n \<noteq> 0" "st = Next (w + n) snds'"
proof (cases "socket io")
  case None
  with assms no_socket show ?thesis by (simp add: write_body_def)
next
  case (Some s)
  note sk = this
  show ?thesis
  proof (cases "poller io")
    case None
    with assms sk no_poller show ?thesis by (simp add: write_body_def)
  next
    case (Some p)
    note pl = this
    show ?thesis
    proof (cases selo)
      case None
      with assms sk pl starved show ?thesis by (simp add: write_body_def)
    next
      case (Some select)
      obtain r wl x where sel: "select (poll_write p) = (r, wl, x)"
        by (cases "select (poll_write p)") auto
      show ?thesis
      proof (cases "x = []")
        case False
        with assms sk pl Some sel exceptional [of "poll_write p" r wl x] show ?thesis
          by (simp add: write_body_def ready_to_write_def Let_def)
      next
        case True
        note x = this
        show ?thesis
        proof (cases "wl = []")
          case True
          with assms sk pl Some sel x not_ready [of "poll_write p" r] show ?thesis
            by (simp add: write_body_def ready_to_write_def Let_def)
        next
          case False
          note wl = this
          show ?thesis
          proof (cases snds)
            case Nil
            with assms sk pl Some sel x wl no_answer [of "poll_write p" r wl] show ?thesis
              by (simp add: write_body_def ready_to_write_def Let_def)
          next
            case (Cons sr snds')
            show ?thesis
            proof (cases sr)
              case (SendRaises why)
              with assms sk pl Some sel x wl Cons raised [of "poll_write p" r wl why snds']
              show ?thesis by (simp add: write_body_def ready_to_write_def Let_def)
            next
              case (SendReturns n)
              show ?thesis
              proof (cases "n = 0")
                case True
                with assms sk pl Some sel x wl Cons SendReturns zero [of "poll_write p" r wl snds']
                show ?thesis by (simp add: write_body_def ready_to_write_def Let_def)
              next
                case False
                with assms sk pl Some sel x wl Cons SendReturns sent [of "poll_write p" r wl n snds']
                show ?thesis by (simp add: write_body_def ready_to_write_def Let_def)
              qed
            qed
          qed
        qed
      qed
    qed
  qed
qed

lemma write_body_trace:
  assumes "write_body io frame w selo snds = (evs, st)"
  shows "sends_at_cursor frame w evs \<and>
         (case st of Next w' snds' \<Rightarrow> w' = cursor_after w evs | _ \<Rightarrow> cursor_after w evs = w)"
  using assms
  by (cases rule: write_body_cases)
     (auto split: wstep.splits dest: after_except_Next_sym after_except_Next)

lemma write_body_fatal:
  assumes "write_body io frame w selo snds = (evs, st)" and "\<exists>ev\<in>set evs. fatal_event ev"
  obtains snds' where "evs \<noteq> []" "fatal_event (last evs)"
    "\<forall>ev\<in>set (butlast evs). \<not> fatal_event ev"
    "write_fatal (fatal_cause (last evs))"
    "st = after_except io w snds' (fatal_cause (last evs))"
  using assms
  by (cases rule: write_body_cases) (auto simp: write_fatal_literal fatal_event_def)

lemma write_body_Next_no_fatal:
  assumes "write_body io frame w selo snds = (evs, Next w' snds')"
  shows "\<forall>ev\<in>set evs. \<not> fatal_event ev"
  using assms
  by (cases rule: write_body_cases)
     (auto dest: after_except_Next_sym after_except_Next
        simp: write_fatal_literal fatal_event_def)

lemma write_body_cooperative:
  assumes "write_body io frame w selo snds = (evs, st)"
    and "socket io = Some s" and "poller io = Some p" and "\<forall>ev\<in>set evs. cooperative ev"
  shows "\<forall>c io'. st \<noteq> Stop c io'"
  using assms
  by (cases rule: write_body_cases) (auto simp: after_except_transient)

lemma cursor_after_append:
  "cursor_after c (evs @ evs') = cursor_after (cursor_after c evs) evs'"
  by (induction c evs rule: cursor_after.induct) auto

lemma sends_at_cursor_append:
  "sends_at_cursor frame c (evs @ evs') =
     (sends_at_cursor frame c evs \<and> sends_at_cursor frame (cursor_after c evs) evs')"
  by (induction frame c evs rule: sends_at_cursor.induct) auto

lemma sent_bytes_append: "sent_bytes (evs @ evs') = sent_bytes evs @ sent_bytes evs'"
  by (induction evs rule: sent_bytes.induct) auto

lemma write_loop_trace:
  assumes "write_loop io frame w sels snds = (evs, fin)"
  shows "sends_at_cursor frame w evs \<and>
         (\<forall>c io' w'. fin = Some (c, io', w') \<longrightarrow> w' = cursor_after w evs)"
  using assms
proof (induction sels arbitrary: w snds evs fin)
  case Nil
  show ?case
  proof (cases "w < int (length frame)")
    case False
    with Nil show ?thesis by auto
  next
    case True
    obtain evs1 st where b: "write_body io frame w None snds = (evs1, st)"
      by (cases "write_body io frame w None snds")
    from write_body_trace [OF b] Nil True b show ?thesis
      by (cases st) auto
  qed
next
  case (Cons select sels)
  show ?case
  proof (cases "w < int (length frame)")
    case False
    with Cons.prems show ?thesis by auto
  next
    case True
    obtain evs1 st where b: "write_body io frame w (Some select) snds = (evs1, st)"
      by (cases "write_body io frame w (Some select) snds")
    note t = write_body_trace [OF b]
    show ?thesis
    proof (cases st)
      case (Next w1 snds1)
      obtain evs2 fin2 where l: "write_loop io frame w1 sels snds1 = (evs2, fin2)"
        by (cases "write_loop io frame w1 sels snds1")
      from Cons.prems True b Next l have e: "evs = evs1 @ evs2" "fin = fin2" by simp_all
      from Cons.IH [OF l] t Next e show ?thesis
        by (simp add: sends_at_cursor_append cursor_after_append)
    next
      case (Stop c io')
      with Cons.prems True b t show ?thesis by auto
    next
      case Starved
      with Cons.prems True b t show ?thesis by auto
    qed
  qed
qed

lemma write_loop_cooperative:
  assumes "socket io = Some s" and "poller io = Some p"
    and "write_loop io frame w sels snds = (evs, fin)"
    and "\<forall>ev\<in>set evs. cooperative ev"
  shows "fin = None \<or> (\<exists>w'. fin = Some (Returns, io, w') \<and> int (length frame) \<le> w')"
  using assms(3,4)
proof (induction sels arbitrary: w snds evs fin)
  case Nil
  show ?case
  proof (cases "w < int (length frame)")
    case False
    with Nil show ?thesis by auto
  next
    case True
    obtain evs1 st where b: "write_body io frame w None snds = (evs1, st)"
      by (cases "write_body io frame w None snds")
    with Nil True have "evs = evs1" by (cases st) auto
    with write_body_cooperative [OF b assms(1,2)] Nil have "\<forall>c io'. st \<noteq> Stop c io'" by simp
    with Nil True b show ?thesis by (cases st) auto
  qed
next
  case (Cons select sels)
  show ?case
  proof (cases "w < int (length frame)")
    case False
    with Cons.prems show ?thesis by auto
  next
    case True
    obtain evs1 st where b: "write_body io frame w (Some select) snds = (evs1, st)"
      by (cases "write_body io frame w (Some select) snds")
    show ?thesis
    proof (cases st)
      case (Next w1 snds1)
      obtain evs2 fin2 where l: "write_loop io frame w1 sels snds1 = (evs2, fin2)"
        by (cases "write_loop io frame w1 sels snds1")
      from Cons.prems True b Next l have e: "evs = evs1 @ evs2" "fin = fin2" by simp_all
      with Cons.prems(2) have "\<forall>ev\<in>set evs2. cooperative ev" by simp
      from Cons.IH [OF l this] e show ?thesis by simp
    next
      case (Stop c io')
      with Cons.prems True b have "evs = evs1" by simp
      with write_body_cooperative [OF b assms(1,2)] Cons.prems(2) Stop show ?thesis by simp
    next
      case Starved
      with Cons.prems True b show ?thesis by simp
    qed
  qed
qed

lemma cooperative_events:
  assumes "0 \<le> c" and "c \<le> int (length frame)" and "sends_at_cursor frame c evs"
    and "\<forall>ev\<in>set evs. cooperative ev"
  shows "c \<le> cursor_after c evs \<and> cursor_after c evs \<le> int (length frame) \<and>
         sent_bytes evs = take (nat (cursor_after c evs - c)) (drop (nat c) frame)"
  using assms
proof (induction evs arbitrary: c)
  case Nil
  then show ?case by simp
next
  case (Cons ev evs)
  show ?case
  proof (cases ev)
    case (EvSend slice r)
    show ?thesis
    proof (cases r)
      case (SendRaises why)
      with Cons EvSend show ?thesis by simp
    next
      case (SendReturns n)
      with Cons.prems EvSend have n: "0 < n" "n \<le> int (length frame) - c"
        and sl: "slice = drop (nat c) frame"
        and rest: "sends_at_cursor frame (c + n) evs" "\<forall>ev\<in>set evs. cooperative ev"
        by (auto simp: slice_from_def)
      from n Cons.prems(1) have b: "0 \<le> c + n" "c + n \<le> int (length frame)" by simp_all
      from Cons.IH [OF b rest]
      have ih: "c + n \<le> cursor_after (c + n) evs" "cursor_after (c + n) evs \<le> int (length frame)"
        "sent_bytes evs =
           take (nat (cursor_after (c + n) evs - (c + n))) (drop (nat (c + n)) frame)"
        by simp_all
      let ?k = "nat (cursor_after (c + n) evs - (c + n))"
      have "take (nat n) (drop (nat c) frame) @ take ?k (drop (nat (c + n)) frame) =
            take (nat n + ?k) (drop (nat c) frame)"
        using Cons.prems(1) n(1) by (simp add: take_add nat_add_distrib add.commute)
      moreover have "nat n + ?k = nat (cursor_after (c + n) evs - c)"
        using ih(1) n(1) by simp
      ultimately have sb: "sent_bytes (ev # evs) =
          take (nat (cursor_after (c + n) evs - c)) (drop (nat c) frame)"
        using EvSend SendReturns sl ih(3) by simp
      have ca: "cursor_after c (ev # evs) = cursor_after (c + n) evs"
        using EvSend SendReturns by simp
      from ih(1) n(1) have "c \<le> cursor_after (c + n) evs" by linarith
      with ih(2) sb show ?thesis unfolding ca by blast
    qed
  next
    case (EvSelect a r)
    with Cons.prems have "sends_at_cursor frame c evs" "\<forall>ev\<in>set evs. cooperative ev"
      by simp_all
    from Cons.IH [OF Cons.prems(1,2) this] EvSelect show ?thesis by simp
  next
    case (EvRecv a r)
    with Cons.prems have "sends_at_cursor frame c evs" "\<forall>ev\<in>set evs. cooperative ev"
      by simp_all
    from Cons.IH [OF Cons.prems(1,2) this] EvRecv show ?thesis by simp
  next
    case (EvConsume a r)
    with Cons.prems have "sends_at_cursor frame c evs" "\<forall>ev\<in>set evs. cooperative ev"
      by simp_all
    from Cons.IH [OF Cons.prems(1,2) this] EvConsume show ?thesis by simp
  next
    case (EvJoin a)
    with Cons.prems have "sends_at_cursor frame c evs" "\<forall>ev\<in>set evs. cooperative ev"
      by simp_all
    from Cons.IH [OF Cons.prems(1,2) this] EvJoin show ?thesis by simp
  next
    case (EvShutdown a r)
    with Cons.prems have "sends_at_cursor frame c evs" "\<forall>ev\<in>set evs. cooperative ev"
      by simp_all
    from Cons.IH [OF Cons.prems(1,2) this] EvShutdown show ?thesis by simp
  next
    case (EvClose a r)
    with Cons.prems have "sends_at_cursor frame c evs" "\<forall>ev\<in>set evs. cooperative ev"
      by simp_all
    from Cons.IH [OF Cons.prems(1,2) this] EvClose show ?thesis by simp
  next
    case (EvGetaddrinfo a1 a2 a3 a4)
    with Cons.prems have "sends_at_cursor frame c evs" "\<forall>ev\<in>set evs. cooperative ev"
      by simp_all
    from Cons.IH [OF Cons.prems(1,2) this] EvGetaddrinfo show ?thesis by simp
  next
    case (EvConnect a1 a2 a3)
    with Cons.prems have "sends_at_cursor frame c evs" "\<forall>ev\<in>set evs. cooperative ev"
      by simp_all
    from Cons.IH [OF Cons.prems(1,2) this] EvConnect show ?thesis by simp
  qed
qed

text \<open>A run of the writer in which every call went well.\<close>

lemma cooperative_run:
  assumes "frame_data \<noteq> []" and "socket io = Some s" and "poller io = Some p"
    and "write_to_socket io frame_data sels snds = (evs, fin)"
    and "\<forall>ev\<in>set evs. cooperative ev"
  shows "(fin = None \<or> fin = Some (Returns, io, int (length frame_data)))
         \<and> sends_at_cursor frame_data 0 evs
         \<and> (fin \<noteq> None \<longrightarrow> sent_bytes evs = frame_data)"
proof -
  from assms(4) have l: "write_loop io frame_data 0 sels snds = (evs, fin)"
    by (simp add: write_to_socket_def)
  from write_loop_trace [OF l]
  have t1: "sends_at_cursor frame_data 0 evs"
    and t2: "\<And>c io' w'. fin = Some (c, io', w') \<Longrightarrow> w' = cursor_after 0 evs"
    by blast+
  note c = write_loop_cooperative [OF assms(2,3) l assms(5)]
  have z: "(0::int) \<le> 0" "0 \<le> int (length frame_data)" by simp_all
  from cooperative_events [OF z t1 assms(5)]
  have e1: "cursor_after 0 evs \<le> int (length frame_data)"
    and e2: "sent_bytes evs = take (nat (cursor_after 0 evs - 0)) (drop (nat 0) frame_data)"
    by blast+
  show ?thesis
  proof (cases fin)
    case None
    with t1 show ?thesis by simp
  next
    case (Some res)
    with c obtain w' where w: "fin = Some (Returns, io, w')" "int (length frame_data) \<le> w'"
      by auto
    from t2 [OF w(1)] have w': "w' = cursor_after 0 evs" .
    with w(2) e1 have len: "cursor_after 0 evs = int (length frame_data)" by linarith
    from e2 have "sent_bytes evs = frame_data" unfolding len by simp
    with w(1) w' len t1 show ?thesis by simp
  qed
qed

lemma write_loop_fatal:
  assumes stop: "\<And>why w snds. write_fatal why \<Longrightarrow> after_except io w snds why = Stop c0 (g why)"
    and "write_loop io frame w sels snds = (evs, fin)"
    and "\<exists>ev\<in>set evs. fatal_event ev"
  shows "(\<exists>w'. fin = Some (c0, g (fatal_cause (last evs)), w'))
         \<and> evs \<noteq> [] \<and> fatal_event (last evs) \<and> (\<forall>ev\<in>set (butlast evs). \<not> fatal_event ev)"
  using assms(2,3)
proof (induction sels arbitrary: w snds evs fin)
  case Nil
  show ?case
  proof (cases "w < int (length frame)")
    case False
    with Nil show ?thesis by auto
  next
    case True
    obtain evs1 st where b: "write_body io frame w None snds = (evs1, st)"
      by (cases "write_body io frame w None snds")
    with Nil True have e: "evs = evs1" by (cases st) auto
    with Nil(2) have "\<exists>ev\<in>set evs1. fatal_event ev" by simp
    from write_body_fatal [OF b this] obtain snds' where
      f: "evs1 \<noteq> []" "fatal_event (last evs1)" "\<forall>ev\<in>set (butlast evs1). \<not> fatal_event ev"
        "write_fatal (fatal_cause (last evs1))"
        "st = after_except io w snds' (fatal_cause (last evs1))" by blast
    from stop [OF f(4)] f(5) have "st = Stop c0 (g (fatal_cause (last evs1)))" by simp
    with b have "write_body io frame w None snds =
        (evs1, Stop c0 (g (fatal_cause (last evs1))))" by simp
    with Nil(1) True have "fin = Some (c0, g (fatal_cause (last evs1)), w)" by auto
    with e f(1,2,3) show ?thesis by simp
  qed
next
  case (Cons select sels)
  show ?case
  proof (cases "w < int (length frame)")
    case False
    with Cons.prems show ?thesis by auto
  next
    case True
    obtain evs1 st where b: "write_body io frame w (Some select) snds = (evs1, st)"
      by (cases "write_body io frame w (Some select) snds")
    show ?thesis
    proof (cases st)
      case (Next w1 snds1)
      obtain evs2 fin2 where l: "write_loop io frame w1 sels snds1 = (evs2, fin2)"
        by (cases "write_loop io frame w1 sels snds1")
      from Cons.prems True b Next l have e: "evs = evs1 @ evs2" "fin = fin2" by simp_all
      from write_body_Next_no_fatal [OF b [unfolded Next]]
      have n: "\<forall>ev\<in>set evs1. \<not> fatal_event ev" .
      with Cons.prems(2) e have f2: "\<exists>ev\<in>set evs2. fatal_event ev" by auto
      then have ne: "evs2 \<noteq> []" by auto
      from Cons.IH [OF l f2] e n ne show ?thesis
        by (auto simp: butlast_append)
    next
      case (Stop c io')
      with Cons.prems True b have e: "evs = evs1" "fin = Some (c, io', w)" by simp_all
      with Cons.prems(2) have "\<exists>ev\<in>set evs1. fatal_event ev" by simp
      from write_body_fatal [OF b this] obtain snds' where
        f: "evs1 \<noteq> []" "fatal_event (last evs1)" "\<forall>ev\<in>set (butlast evs1). \<not> fatal_event ev"
          "write_fatal (fatal_cause (last evs1))"
          "st = after_except io w snds' (fatal_cause (last evs1))" by blast
      from stop [OF f(4)] f(5) Stop have "c = c0" "io' = g (fatal_cause (last evs1))"
        by simp_all
      with e f(1,2,3) show ?thesis by simp
    next
      case Starved
      with Cons.prems True b have e: "evs = evs1" by simp
      with Cons.prems(2) have "\<exists>ev\<in>set evs1. fatal_event ev" by simp
      from write_body_fatal [OF b this] obtain snds' where
        f: "write_fatal (fatal_cause (last evs1))"
          "st = after_except io w snds' (fatal_cause (last evs1))"
        by blast
      from stop [OF f(1)] f(2) Starved show ?thesis by simp
    qed
  qed
qed

lemma fatal_send_is_last:
  assumes "evs \<noteq> []" and "\<forall>ev\<in>set (butlast evs). \<not> fatal_event ev"
    and "\<exists>ev\<in>set evs. fatal_send ev"
  shows "fatal_send (last evs)"
proof -
  from assms(3) obtain ev where ev: "ev \<in> set evs" "fatal_send ev" by blast
  have a: "set (butlast evs) \<union> {last evs} = set (butlast evs @ [last evs])" by simp
  have b: "butlast evs @ [last evs] = evs" using assms(1) by simp
  note c = a [unfolded b]
  with ev(1) have "ev \<in> set (butlast evs) \<or> ev = last evs" by blast
  with assms(2) ev(2) show ?thesis by (auto simp: fatal_event_def)
qed

lemma write_loop_no_socket:
  assumes stop: "\<And>why w snds. write_fatal why \<Longrightarrow> after_except io w snds why = Stop c0 (g why)"
    and "socket io = None" and "frame \<noteq> []"
  shows "write_loop io frame 0 sels snds = ([], Some (c0, g socket_error_literal, 0))"
proof -
  have "write_body io frame 0 selo snds = ([], Stop c0 (g socket_error_literal))" for selo
    using assms(2) stop [OF write_fatal_literal] by (simp add: write_body_def)
  with assms(3) show ?thesis by (cases sels) simp_all
qed

text \<open>
  C3, as the code has it. The claim as written fails when no error sink was given to
  the constructor: the append raises. With an error sink and a non-empty buffer: when
  there is no socket, or a \<^verbatim>\<open>send\<close> takes no byte or raises a socket error that has a
  first argument other than \<^verbatim>\<open>EWOULDBLOCK\<close> and \<^verbatim>\<open>EAGAIN\<close>, the call returns normally,
  the sink has exactly one more entry, the \<^verbatim>\<open>AMQPConnectionError\<close> wrapping that error,
  and that \<^verbatim>\<open>send\<close> is the last call made (with no socket, no call is made at all).
\<close>

theorem write_to_socket_fatal:
  assumes "frame_data \<noteq> []" and "exceptions io = Some es"
    and "write_to_socket io frame_data sels snds = (evs, fin)"
    and "socket io = None \<or> (\<exists>ev\<in>set evs. fatal_send ev)"
  shows "(\<exists>w. fin =
            Some (Returns,
                  io\<lparr>exceptions :=
                       Some (es @ [Exc AMQPConnectionError
                                     [PExc (if socket io = None then socket_error_literal
                                            else fatal_cause (last evs))]])\<rparr>,
                  w))
         \<and> (if socket io = None then evs = []
            else fatal_send (last evs) \<and> (\<forall>ev\<in>set (butlast evs). \<not> fatal_event ev))"
proof -
  let ?g = "\<lambda>why. io\<lparr>exceptions := Some (es @ [Exc AMQPConnectionError [PExc why]])\<rparr>"
  have stop: "\<And>why w snds. write_fatal why \<Longrightarrow> after_except io w snds why = Stop Returns (?g why)"
    using assms(2) by (simp add: after_except_fatal)
  from assms(3) have l: "write_loop io frame_data 0 sels snds = (evs, fin)"
    by (simp add: write_to_socket_def)
  show ?thesis
  proof (cases "socket io")
    case None
    from write_loop_no_socket [of io Returns ?g, OF stop None assms(1), of sels snds] l None
    show ?thesis by auto
  next
    case (Some s)
    with assms(4) have fs: "\<exists>ev\<in>set evs. fatal_send ev" by simp
    then have "\<exists>ev\<in>set evs. fatal_event ev" by (auto simp: fatal_event_def)
    from write_loop_fatal [of io Returns ?g, OF stop l this]
    have r: "\<exists>w'. fin = Some (Returns, ?g (fatal_cause (last evs)), w')" "evs \<noteq> []"
      "\<forall>ev\<in>set (butlast evs). \<not> fatal_event ev" by simp_all
    from fatal_send_is_last [OF r(2,3) fs] r Some show ?thesis by simp
  qed
qed

text \<open>
  C10. On a transport constructed without an error sink, a fatal condition does not
  end silently: \<^verbatim>\<open>write_to_socket\<close> on a non-empty buffer with no socket, or with a
  readiness wait that reports an exceptional condition, or with a \<^verbatim>\<open>send\<close> that takes
  no byte or raises a non-transient socket error, raises the \<^verbatim>\<open>AttributeError\<close> of
  the append to \<^verbatim>\<open>None\<close>; so does \<^verbatim>\<open>_receive\<close> with no socket or
  with a read that raises a non-transient \<^verbatim>\<open>IOError\<close>/\<^verbatim>\<open>OSError\<close>, and it leaves the
  Running Flag as it was.
\<close>

theorem append_to_missing_sink_raises:
  assumes "exceptions io = None"
  shows "(\<forall>frame_data sels snds evs fin.
            frame_data \<noteq> [] \<and> write_to_socket io frame_data sels snds = (evs, fin)
            \<and> (socket io = None \<or> (\<exists>ev\<in>set evs. fatal_event ev)) \<longrightarrow>
            (\<exists>w. fin = Some (Raises (none_attribute_error ''append''), io, w)))
       \<and> (\<forall>mfs recvs. socket io = None \<longrightarrow>
            receive mfs io recvs =
              Some ([], Inl (none_attribute_error ''append''), io, recvs))
       \<and> (\<forall>mfs s recv recvs why.
            socket io = Some s \<and> recv mfs = RecvRaises why \<and> read_fatal why \<longrightarrow>
            receive mfs io (recv # recvs) =
              Some ([EvRecv mfs (RecvRaises why)], Inl (none_attribute_error ''append''),
                    io, recvs))"
proof (intro conjI allI impI)
  fix frame_data sels snds evs fin
  assume h: "frame_data \<noteq> [] \<and> write_to_socket io frame_data sels snds = (evs, fin)
     \<and> (socket io = None \<or> (\<exists>ev\<in>set evs. fatal_event ev))"
  let ?c = "Raises (none_attribute_error ''append'')"
  have stop: "\<And>why w snds. write_fatal why \<Longrightarrow> after_except io w snds why = Stop ?c io"
    using assms by (simp add: after_except_fatal_no_sink)
  from h have l: "write_loop io frame_data 0 sels snds = (evs, fin)"
    by (simp add: write_to_socket_def)
  show "\<exists>w. fin = Some (?c, io, w)"
  proof (cases "socket io")
    case None
    from h have "frame_data \<noteq> []" by simp
    from write_loop_no_socket [of io ?c "\<lambda>why. io", OF stop None this, of sels snds] l
    show ?thesis by simp
  next
    case (Some s)
    with h have "\<exists>ev\<in>set evs. fatal_event ev" by simp
    from write_loop_fatal [of io ?c "\<lambda>why. io", OF stop l this] show ?thesis by simp
  qed
next
  fix mfs :: nat and recvs :: "recv_impl list"
  assume "socket io = None"
  then show "receive mfs io recvs =
      Some ([], Inl (none_attribute_error ''append''), io, recvs)"
    using assms by (simp add: receive_def receive_except_fatal_no_sink [OF read_fatal_literal])
next
  fix mfs :: nat and s recv recvs why
  assume "socket io = Some s \<and> recv mfs = RecvRaises why \<and> read_fatal why"
  then show "receive mfs io (recv # recvs) =
      Some ([EvRecv mfs (RecvRaises why)], Inl (none_attribute_error ''append''), io, recvs)"
    using assms by (simp add: receive_def Let_def receive_except_fatal_no_sink)
qed

text \<open>An error with an empty argument tuple is outside the statements above: both
  handlers read \<^verbatim>\<open>why.args[0]\<close> unguarded, and the \<^verbatim>\<open>IndexError\<close> leaves the function.\<close>

lemma write_error_without_arguments:
  "write_except io (Exc Socket_error []) = Finish (Raises index_error) io"
  by (simp add: write_except_def is_socket_timeout_def is_socket_error_def)

lemma receive_error_without_arguments:
  "socket io = Some s \<Longrightarrow> recv mfs = RecvRaises (Exc Socket_error []) \<Longrightarrow>
   receive mfs io (recv # recvs) =
     Some ([EvRecv mfs (RecvRaises (Exc Socket_error []))], Inl index_error, io, recvs)"
  by (simp add: receive_def receive_except_def Let_def is_socket_timeout_def
      is_IOError_or_OSError_def)

lemma opened_io_fields:
  "socket (opened_io excs) = Some example_socket"
  "poller (opened_io excs) = Some (Poller example_socket)"
  "exceptions (opened_io excs) = excs"
  by (simp_all add: opened_io_def IO_def)

subsection \<open>The writer returns when the script is long enough; example runs\<close>

lemma write_body_sent:
  assumes "socket io = Some s" and "poller io = Some p"
    and "select (poll_write p) = (r, wl, [])" and "wl \<noteq> []" and "n \<noteq> 0"
  shows "write_body io frame w (Some select) (SendReturns n # snds) =
           ([EvSelect (poll_write p) (r, wl, []), EvSend (slice_from frame w) (SendReturns n)],
            Next (w + n) snds)"
  using assms by (simp add: write_body_def ready_to_write_def Let_def)

lemma write_body_transient:
  assumes "socket io = Some s" and "poller io = Some p"
    and "select (poll_write p) = (r, wl, [])" and "wl \<noteq> []" and "write_transient why"
  shows "write_body io frame w (Some select) (SendRaises why # snds) =
           ([EvSelect (poll_write p) (r, wl, []),
             EvSend (slice_from frame w) (SendRaises why)],
            Next w snds)"
  using assms by (simp add: write_body_def ready_to_write_def Let_def after_except_transient)

lemma write_body_not_ready:
  assumes "socket io = Some s" and "poller io = Some p"
    and "select (poll_write p) = (r, [], [])"
  shows "write_body io frame w (Some select) snds =
           ([EvSelect (poll_write p) (r, [], [])], Next w snds)"
  using assms by (simp add: write_body_def ready_to_write_def Let_def)

lemma write_loop_enough:
  assumes "socket io = Some s" and "poller io = Some p"
    and "\<forall>select\<in>set sels. calm_answer p select"
    and "\<forall>r\<in>set snds. send_succeeds r \<or> send_transient r"
    and "int (length frame) - w \<le> int (length (filter send_succeeds snds))"
    and "length snds \<le> length (filter (ready_answer p) sels)"
  shows "snd (write_loop io frame w sels snds) \<noteq> None"
  using assms(3-6)
proof (induction sels arbitrary: w snds)
  case Nil
  then show ?case by simp
next
  case (Cons select sels)
  show ?case
  proof (cases "w < int (length frame)")
    case False
    then show ?thesis by simp
  next
    case True
    from Cons.prems(1) obtain r wl where sel: "select (poll_write p) = (r, wl, [])"
      by (cases "select (poll_write p)") (auto simp: calm_answer_def)
    have calm: "\<forall>select\<in>set sels. calm_answer p select" using Cons.prems(1) by simp
    show ?thesis
    proof (cases "wl = []")
      case True
      with sel have b: "write_body io frame w (Some select) snds =
          ([EvSelect (poll_write p) (r, [], [])], Next w snds)"
        using write_body_not_ready [OF assms(1,2), of select r frame w snds] by simp
      from True sel have "\<not> ready_answer p select" by (simp add: ready_answer_def)
      with Cons.prems(4) have "length snds \<le> length (filter (ready_answer p) sels)" by simp
      from Cons.IH [OF calm Cons.prems(2,3) this] \<open>w < int (length frame)\<close> b
      show ?thesis by (auto split: prod.splits)
    next
      case False
      with sel have rdy: "ready_answer p select" by (simp add: ready_answer_def)
      from \<open>w < int (length frame)\<close> Cons.prems(3) have "filter send_succeeds snds \<noteq> []"
        by auto
      then obtain x snds' where sn: "snds = x # snds'" by (cases snds) auto
      from rdy Cons.prems(4) sn
      have len: "length snds' \<le> length (filter (ready_answer p) sels)" by simp
      have rest: "\<forall>r\<in>set snds'. send_succeeds r \<or> send_transient r"
        using Cons.prems(2) sn by simp
      show ?thesis
      proof (cases x)
        case (SendReturns n)
        with Cons.prems(2) sn have n: "0 < n" by auto
        then have "n \<noteq> 0" by simp
        with assms(1,2) sel False
        have b: "write_body io frame w (Some select) (SendReturns n # snds') =
            ([EvSelect (poll_write p) (r, wl, []),
              EvSend (slice_from frame w) (SendReturns n)],
             Next (w + n) snds')"
          by (rule write_body_sent)
        have "int (length frame) - (w + n) \<le> int (length (filter send_succeeds snds'))"
          using Cons.prems(3) sn SendReturns n by simp
        from Cons.IH [OF calm rest this len] \<open>w < int (length frame)\<close> b sn SendReturns
        show ?thesis by (auto split: prod.splits)
      next
        case (SendRaises why)
        with Cons.prems(2) sn have "write_transient why" by auto
        with assms(1,2) sel False
        have b: "write_body io frame w (Some select) (SendRaises why # snds') =
            ([EvSelect (poll_write p) (r, wl, []),
              EvSend (slice_from frame w) (SendRaises why)],
             Next w snds')"
          by (rule write_body_transient)
        have "int (length frame) - w \<le> int (length (filter send_succeeds snds'))"
          using Cons.prems(3) sn SendRaises by simp
        from Cons.IH [OF calm rest this len] \<open>w < int (length frame)\<close> b sn SendRaises
        show ?thesis by (auto split: prod.splits)
      qed
    qed
  qed
qed

lemma write_to_socket_returns_on_enough_script:
  assumes "socket io = Some s" and "poller io = Some p"
    and "enough_script p frame_data sels snds"
  shows "snd (write_to_socket io frame_data sels snds) \<noteq> None"
  unfolding write_to_socket_def
  using write_loop_enough [OF assms(1,2), of sels snds frame_data 0] assms(3)
  by (simp add: enough_script_def)

text \<open>A call that ended otherwise than by sending everything stopped short of the
  end of the buffer.\<close>

lemma write_loop_final:
  assumes "write_loop io frame w sels snds = (evs, Some (c, io', w'))"
  shows "(c = Returns \<and> io' = io \<and> int (length frame) \<le> w') \<or> w' < int (length frame)"
  using assms
proof (induction sels arbitrary: w snds evs)
  case Nil
  then show ?case
    by (auto split: if_splits prod.splits wstep.splits)
next
  case (Cons select sels)
  show ?case
  proof (cases "w < int (length frame)")
    case False
    with Cons.prems show ?thesis by simp
  next
    case True
    obtain evs1 st where b: "write_body io frame w (Some select) snds = (evs1, st)"
      by (cases "write_body io frame w (Some select) snds")
    show ?thesis
    proof (cases st)
      case (Next w1 snds1)
      obtain evs2 fin2 where l: "write_loop io frame w1 sels snds1 = (evs2, fin2)"
        by (cases "write_loop io frame w1 sels snds1")
      with Cons.prems True b Next have "fin2 = Some (c, io', w')" by simp
      with Cons.IH [of w1 snds1 evs2] l show ?thesis by simp
    next
      case (Stop c1 io1)
      with Cons.prems True b show ?thesis by simp
    next
      case Starved
      with Cons.prems True b show ?thesis by simp
    qed
  qed
qed

lemma fatal_event_is_last:
  assumes "evs \<noteq> []" and "\<forall>ev\<in>set (butlast evs). \<not> fatal_event ev"
    and "ev \<in> set evs" and "fatal_event ev"
  shows "ev = last evs"
proof -
  have a: "set (butlast evs) \<union> {last evs} = set (butlast evs @ [last evs])" by simp
  have b: "butlast evs @ [last evs] = evs" using assms(1) by simp
  note c = a [unfolded b]
  with assms(3) have "ev \<in> set (butlast evs) \<or> ev = last evs" by blast
  with assms(2,4) show ?thesis by blast
qed

lemma fatal_wait_cause: "fatal_wait ev \<Longrightarrow> fatal_cause ev = socket_error_literal"
  by (cases ev) auto

text \<open>
  C1, as the code has it. The claim as written fails when a readiness wait reports an
  exceptional condition on the socket: the poller raises a socket error, which the
  writer treats as fatal although no \<^verbatim>\<open>send\<close> went wrong. Take a call with a non-empty
  buffer on a transport with a socket and a poller. If no wait reported an exceptional
  condition and every \<^verbatim>\<open>send\<close> either took at least one byte (and no more than it was
  given) or raised a transient condition, then the call, if it ends, returns normally
  with the cursor at the length of the buffer and the transport, sink included, as it
  was; every \<^verbatim>\<open>send\<close> was given the buffer from the cursor on, the cursor moving only
  by the bytes a \<^verbatim>\<open>send\<close> took; and the bytes taken are, in order, the whole buffer. The
  call does end, in that way, when in addition the script of answers is long enough:
  as many byte-taking answers to \<^verbatim>\<open>send\<close> as the buffer has bytes, whatever transient
  conditions stand between them, and a wait that reports the socket writable for
  every answer. If the transport has an error sink and a wait reported an exceptional
  condition, that wait is the last call made, the call returns normally with the
  cursor short of the length of the buffer, and the sink has exactly one more entry,
  the \<^verbatim>\<open>AMQPConnectionError\<close> wrapping the poller's socket error.
\<close>

theorem write_to_socket_sends_everything:
  assumes "frame_data \<noteq> []" and "socket io = Some s" and "poller io = Some p"
    and "write_to_socket io frame_data sels snds = (evs, fin)"
  shows "((\<forall>ev\<in>set evs. cooperative ev) \<longrightarrow>
            (fin = None \<or> fin = Some (Returns, io, int (length frame_data)))
            \<and> sends_at_cursor frame_data 0 evs
            \<and> (fin \<noteq> None \<longrightarrow> sent_bytes evs = frame_data))
         \<and> ((\<forall>ev\<in>set evs. cooperative ev) \<and> enough_script p frame_data sels snds \<longrightarrow>
            fin = Some (Returns, io, int (length frame_data)) \<and> sent_bytes evs = frame_data)
         \<and> (\<forall>es. exceptions io = Some es \<and> (\<exists>ev\<in>set evs. fatal_wait ev) \<longrightarrow>
            (\<exists>w. w < int (length frame_data)
               \<and> fin = Some (Returns,
                             io\<lparr>exceptions :=
                                  Some (es @ [Exc AMQPConnectionError
                                                [PExc socket_error_literal]])\<rparr>,
                             w))
            \<and> fatal_wait (last evs) \<and> (\<forall>ev\<in>set (butlast evs). \<not> fatal_event ev))"
proof -
  have p1: "(\<forall>ev\<in>set evs. cooperative ev) \<longrightarrow>
            (fin = None \<or> fin = Some (Returns, io, int (length frame_data)))
            \<and> sends_at_cursor frame_data 0 evs
            \<and> (fin \<noteq> None \<longrightarrow> sent_bytes evs = frame_data)"
  proof
    assume c: "\<forall>ev\<in>set evs. cooperative ev"
    show "(fin = None \<or> fin = Some (Returns, io, int (length frame_data)))
            \<and> sends_at_cursor frame_data 0 evs
            \<and> (fin \<noteq> None \<longrightarrow> sent_bytes evs = frame_data)"
      by (rule cooperative_run [OF assms c])
  qed
  have p2: "(\<forall>ev\<in>set evs. cooperative ev) \<and> enough_script p frame_data sels snds \<longrightarrow>
            fin = Some (Returns, io, int (length frame_data)) \<and> sent_bytes evs = frame_data"
  proof
    assume h: "(\<forall>ev\<in>set evs. cooperative ev) \<and> enough_script p frame_data sels snds"
    from h have c: "\<forall>ev\<in>set evs. cooperative ev" by (rule conjunct1)
    from h have e: "enough_script p frame_data sels snds" by (rule conjunct2)
    note r = cooperative_run [OF assms c]
    from write_to_socket_returns_on_enough_script [OF assms(2,3) e]
    have n: "fin \<noteq> None" unfolding assms(4) by simp
    from r have "fin = None \<or> fin = Some (Returns, io, int (length frame_data))"
      by (rule conjunct1)
    then have f: "fin = Some (Returns, io, int (length frame_data))"
    proof
      assume "fin = None"
      with n show ?thesis by (rule notE)
    qed
    note r [THEN conjunct2, THEN conjunct2]
    then have "fin \<noteq> None \<longrightarrow> sent_bytes evs = frame_data" .
    then have "sent_bytes evs = frame_data" using n by (rule mp)
    with f show "fin = Some (Returns, io, int (length frame_data))
        \<and> sent_bytes evs = frame_data" by (rule conjI)
  qed
  have p3: "\<forall>es. exceptions io = Some es \<and> (\<exists>ev\<in>set evs. fatal_wait ev) \<longrightarrow>
            (\<exists>w. w < int (length frame_data)
               \<and> fin = Some (Returns,
                             io\<lparr>exceptions :=
                                  Some (es @ [Exc AMQPConnectionError
                                                [PExc socket_error_literal]])\<rparr>,
                             w))
            \<and> fatal_wait (last evs) \<and> (\<forall>ev\<in>set (butlast evs). \<not> fatal_event ev)"
  proof (intro allI impI)
    fix es
    assume h: "exceptions io = Some es \<and> (\<exists>ev\<in>set evs. fatal_wait ev)"
    define io' where "io' = io\<lparr>exceptions :=
        Some (es @ [Exc AMQPConnectionError [PExc socket_error_literal]])\<rparr>"
    let ?g = "\<lambda>why. io\<lparr>exceptions := Some (es @ [Exc AMQPConnectionError [PExc why]])\<rparr>"
    from h have sink: "exceptions io = Some es" by (rule conjunct1)
    have stop: "\<And>why w snds. write_fatal why \<Longrightarrow>
        after_except io w snds why = Stop Returns (?g why)"
      using sink by (simp add: after_except_fatal)
    from assms(4) have l: "write_loop io frame_data 0 sels snds = (evs, fin)"
      by (simp add: write_to_socket_def)
    from h have "\<exists>ev\<in>set evs. fatal_wait ev" by (rule conjunct2)
    then obtain ev where ev: "ev \<in> set evs" "fatal_wait ev" ..
    from ev(2) have fe: "fatal_event ev" by (simp add: fatal_event_def)
    with ev(1) have "\<exists>ev\<in>set evs. fatal_event ev" by (rule bexI [rotated])
    note f = write_loop_fatal [of io Returns ?g, OF stop l this]
    note r2 = f [THEN conjunct2, THEN conjunct1]
    note r3 = f [THEN conjunct2, THEN conjunct2, THEN conjunct2]
    from fatal_event_is_last [OF r2 r3 ev(1) fe] have "ev = last evs" .
    with ev(2) have lw: "fatal_wait (last evs)" by (rule subst [rotated])
    then have fc: "fatal_cause (last evs) = socket_error_literal" by (rule fatal_wait_cause)
    from f have "\<exists>w'. fin = Some (Returns, ?g (fatal_cause (last evs)), w')"
      by (rule conjunct1)
    then obtain w where "fin = Some (Returns, ?g (fatal_cause (last evs)), w)" ..
    then have fin: "fin = Some (Returns, io', w)" unfolding fc io'_def .
    have ne: "io' \<noteq> io"
    proof
      assume "io' = io"
      then have "exceptions io' = exceptions io" by (rule arg_cong)
      with sink show False by (simp add: io'_def)
    qed
    from write_loop_final [OF l [unfolded fin]]
    have "(Returns = Returns \<and> io' = io \<and> int (length frame_data) \<le> w)
        \<or> w < int (length frame_data)" .
    then have short: "w < int (length frame_data)"
    proof
      assume "Returns = Returns \<and> io' = io \<and> int (length frame_data) \<le> w"
      then have "io' = io" by (elim conjE)
      with ne show ?thesis by (rule notE)
    qed
    from short fin have "w < int (length frame_data) \<and> fin = Some (Returns, io', w)"
      by (rule conjI)
    then have "\<exists>w. w < int (length frame_data) \<and> fin = Some (Returns, io', w)"
      by (rule exI)
    with lw r3 show "(\<exists>w. w < int (length frame_data)
               \<and> fin = Some (Returns,
                             io\<lparr>exceptions :=
                                  Some (es @ [Exc AMQPConnectionError
                                                [PExc socket_error_literal]])\<rparr>,
                             w))
            \<and> fatal_wait (last evs) \<and> (\<forall>ev\<in>set (butlast evs). \<not> fatal_event ev)"
      unfolding io'_def by (intro conjI)
  qed
  from p1 p2 p3 show ?thesis by (intro conjI)
qed

lemma example_run:
  "write_to_socket (opened_io (Some [])) ''ab'' [writable, writable, writable]
     [SendRaises (Exc Socket_error [PInt EWOULDBLOCK]), SendReturns 1, SendReturns 1] =
     ([EvSelect (poll_write (Poller example_socket)) ([], [example_socket], []),
       EvSend ''ab'' (SendRaises (Exc Socket_error [PInt EWOULDBLOCK])),
       EvSelect (poll_write (Poller example_socket)) ([], [example_socket], []),
       EvSend ''ab'' (SendReturns 1),
       EvSelect (poll_write (Poller example_socket)) ([], [example_socket], []),
       EvSend ''b'' (SendReturns 1)],
      Some (Returns, opened_io (Some []), 2))"
  by (simp add: write_to_socket_def write_body_def opened_io_fields ready_to_write_def
      writable_def Poller_def Let_def after_except_def write_except_def is_socket_timeout_def
      is_socket_error_def in_EWOULDBLOCK_EAGAIN_def slice_from_def)

lemma exceptional_run:
  "write_to_socket (opened_io (Some [])) ''a'' [exceptional] [] =
     ([EvSelect ([example_socket], [example_socket], [example_socket], POLL_TIMEOUT)
         ([], [], [example_socket])],
      Some (Returns,
            (opened_io (Some []))
              \<lparr>exceptions := Some [Exc AMQPConnectionError [PExc socket_error_literal]]\<rparr>,
            0))"
  by (simp add: write_to_socket_def write_body_def opened_io_fields ready_to_write_def
      exceptional_def Poller_def Let_def after_except_fatal [OF write_fatal_literal])

theorem write_to_socket_sends_everything_witness:
  "write_to_socket (opened_io (Some [])) ''ab'' [writable, writable, writable]
     [SendRaises (Exc Socket_error [PInt EWOULDBLOCK]), SendReturns 1, SendReturns 1] =
     ([EvSelect (poll_write (Poller example_socket)) ([], [example_socket], []),
       EvSend ''ab'' (SendRaises (Exc Socket_error [PInt EWOULDBLOCK])),
       EvSelect (poll_write (Poller example_socket)) ([], [example_socket], []),
       EvSend ''ab'' (SendReturns 1),
       EvSelect (poll_write (Poller example_socket)) ([], [example_socket], []),
       EvSend ''b'' (SendReturns 1)],
      Some (Returns, opened_io (Some []), 2))
   \<and> sent_bytes
        (fst (write_to_socket (opened_io (Some [])) ''ab'' [writable, writable, writable]
                [SendRaises (Exc Socket_error [PInt EWOULDBLOCK]), SendReturns 1,
                 SendReturns 1])) = ''ab''
   \<and> enough_script (Poller example_socket) ''ab'' [writable, writable, writable]
        [SendRaises (Exc Socket_error [PInt EWOULDBLOCK]), SendReturns 1, SendReturns 1]
   \<and> fatal_wait (last (fst (write_to_socket (opened_io (Some [])) ''a'' [exceptional] [])))
   \<and> snd (write_to_socket (opened_io (Some [])) ''a'' [exceptional] []) =
       Some (Returns,
             (opened_io (Some []))
               \<lparr>exceptions := Some [Exc AMQPConnectionError [PExc socket_error_literal]]\<rparr>,
             0)"
proof -
  let ?evs = "[EvSelect (poll_write (Poller example_socket)) ([], [example_socket], []),
       EvSend ''ab'' (SendRaises (Exc Socket_error [PInt EWOULDBLOCK])),
       EvSelect (poll_write (Poller example_socket)) ([], [example_socket], []),
       EvSend ''ab'' (SendReturns 1),
       EvSelect (poll_write (Poller example_socket)) ([], [example_socket], []),
       EvSend ''b'' (SendReturns 1)]"
  let ?xevs = "[EvSelect ([example_socket], [example_socket], [example_socket], POLL_TIMEOUT)
         ([], [], [example_socket])]"
  have ne: "''ab'' \<noteq> []" and ne1: "''a'' \<noteq> []" by simp_all
  have tr: "write_transient (Exc Socket_error [PInt EWOULDBLOCK])"
    by (simp add: write_transient_def is_socket_error_def first_arg_transient_def
        in_EWOULDBLOCK_EAGAIN_def)
  have coop: "\<forall>ev\<in>set ?evs. cooperative ev"
    using tr by simp
  have es: "enough_script (Poller example_socket) ''ab'' [writable, writable, writable]
        [SendRaises (Exc Socket_error [PInt EWOULDBLOCK]), SendReturns 1, SendReturns 1]"
    using tr by (simp add: enough_script_def calm_answer_def ready_answer_def writable_def
        Poller_def)
  note t = write_to_socket_sends_everything
    [OF ne opened_io_fields(1) opened_io_fields(2) example_run,
      THEN conjunct2, THEN conjunct1, rule_format]
  from t coop es have sb: "sent_bytes ?evs = ''ab''" by blast
  have fw: "exceptions (opened_io (Some [])) = Some [] \<and> (\<exists>ev\<in>set ?xevs. fatal_wait ev)"
    by (simp add: opened_io_fields)
  note u = write_to_socket_sends_everything
    [OF ne1 opened_io_fields(1) opened_io_fields(2) exceptional_run,
      THEN conjunct2, THEN conjunct2, rule_format, OF fw]
  from u have "fatal_wait (last ?xevs)" by blast
  with sb es show ?thesis by (simp add: example_run exceptional_run)
qed

text \<open>An exceptional condition at the first readiness wait ends the write of a
  one-byte buffer with no \<^verbatim>\<open>send\<close> attempted, the cursor at 0 and one error in the
  sink.\<close>

theorem write_to_socket_exceptional_condition:
  "socket (opened_io (Some [])) = Some example_socket
   \<and> exceptions (opened_io (Some [])) = Some []
   \<and> write_to_socket (opened_io (Some [])) ''a'' [exceptional] [] =
     ([EvSelect ([example_socket], [example_socket], [example_socket], POLL_TIMEOUT)
         ([], [], [example_socket])],
      Some (Returns,
            (opened_io (Some []))
              \<lparr>exceptions := Some [Exc AMQPConnectionError [PExc socket_error_literal]]\<rparr>,
            0))"
  by (simp add: exceptional_run opened_io_fields)

lemma fatal_run:
  "write_to_socket (opened_io (Some [])) ''ab'' [writable, writable]
     [SendReturns 1, SendRaises (Exc Socket_error [PStr ''error''])] =
     ([EvSelect (poll_write (Poller example_socket)) ([], [example_socket], []),
       EvSend ''ab'' (SendReturns 1),
       EvSelect (poll_write (Poller example_socket)) ([], [example_socket], []),
       EvSend ''b'' (SendRaises (Exc Socket_error [PStr ''error'']))],
      Some (Returns,
            (opened_io (Some []))
              \<lparr>exceptions :=
                 Some [Exc AMQPConnectionError [PExc (Exc Socket_error [PStr ''error''])]]\<rparr>,
            1))"
  by (simp add: write_to_socket_def write_body_def opened_io_fields ready_to_write_def
      writable_def Poller_def Let_def after_except_def write_except_def is_socket_timeout_def
      is_socket_error_def in_EWOULDBLOCK_EAGAIN_def slice_from_def)

theorem write_to_socket_fatal_witness:
  "snd (write_to_socket (opened_io (Some [])) ''ab'' [writable, writable]
          [SendReturns 1, SendRaises (Exc Socket_error [PStr ''error''])]) =
     Some (Returns,
           (opened_io (Some []))
             \<lparr>exceptions :=
                Some [Exc AMQPConnectionError [PExc (Exc Socket_error [PStr ''error''])]]\<rparr>,
           1)
   \<and> fatal_send (last (fst (write_to_socket (opened_io (Some [])) ''ab'' [writable, writable]
          [SendReturns 1, SendRaises (Exc Socket_error [PStr ''error''])])))"
proof -
  let ?evs = "[EvSelect (poll_write (Poller example_socket)) ([], [example_socket], []),
       EvSend ''ab'' (SendReturns 1),
       EvSelect (poll_write (Poller example_socket)) ([], [example_socket], []),
       EvSend ''b'' (SendRaises (Exc Socket_error [PStr ''error'']))]"
  have ne: "''ab'' \<noteq> []" by simp
  have f: "socket (opened_io (Some [])) = None \<or> (\<exists>ev\<in>set ?evs. fatal_send ev)"
    by (simp add: write_fatal_def is_socket_error_def is_socket_timeout_def first_arg_other_def
        in_EWOULDBLOCK_EAGAIN_def)
  from write_to_socket_fatal [OF ne opened_io_fields(3) fatal_run f]
  have "fatal_send (last ?evs)" by (simp add: opened_io_fields)
  then show ?thesis by (simp add: fatal_run)
qed

text \<open>On a transport constructed with the default arguments (no sink, no socket yet),
  writing one byte raises.\<close>

theorem write_to_socket_without_sink_raises:
  "write_to_socket (IO example_parameters None None) ''a'' [] [] =
     ([], Some (Raises (none_attribute_error ''append''), IO example_parameters None None, 0))
   \<and> socket (IO example_parameters None None) = None"
  by (simp add: write_to_socket_def write_body_def IO_def
      after_except_fatal_no_sink [OF write_fatal_literal])

lemma fatal_run_no_sink:
  "write_to_socket (opened_io None) ''a'' [writable]
     [SendRaises (Exc Socket_error [PStr ''error''])] =
     ([EvSelect (poll_write (Poller example_socket)) ([], [example_socket], []),
       EvSend ''a'' (SendRaises (Exc Socket_error [PStr ''error'']))],
      Some (Raises (none_attribute_error ''append''), opened_io None, 0))"
  by (simp add: write_to_socket_def write_body_def opened_io_fields ready_to_write_def
      writable_def Poller_def Let_def after_except_def write_except_def is_socket_timeout_def
      is_socket_error_def in_EWOULDBLOCK_EAGAIN_def slice_from_def)

theorem append_to_missing_sink_raises_witness:
  "snd (write_to_socket (opened_io None) ''a'' [writable]
          [SendRaises (Exc Socket_error [PStr ''error''])]) =
     Some (Raises (none_attribute_error ''append''), opened_io None, 0)
   \<and> receive 131072 (opened_io None) [\<lambda>n. RecvRaises (Exc Socket_error [PStr ''travis-ci''])] =
       Some ([EvRecv 131072 (RecvRaises (Exc Socket_error [PStr ''travis-ci'']))],
             Inl (none_attribute_error ''append''), opened_io None, [])"
proof -
  let ?evs = "[EvSelect (poll_write (Poller example_socket)) ([], [example_socket], []),
       EvSend ''a'' (SendRaises (Exc Socket_error [PStr ''error'']))]"
  let ?fin = "Some (Raises (none_attribute_error ''append''), opened_io None, 0::int)"
  have f: "\<exists>ev\<in>set ?evs. fatal_event ev"
    by (simp add: fatal_event_def write_fatal_def is_socket_error_def is_socket_timeout_def
        first_arg_other_def in_EWOULDBLOCK_EAGAIN_def)
  have rf: "read_fatal (Exc Socket_error [PStr ''travis-ci''])"
    by (simp add: read_fatal_def is_IOError_or_OSError_def is_socket_timeout_def
        first_arg_other_def in_EWOULDBLOCK_EAGAIN_def)
  note t = append_to_missing_sink_raises [OF opened_io_fields(3) [of None]]
  note a = t [THEN conjunct1, rule_format, of "''a''" "[writable]"
      "[SendRaises (Exc Socket_error [PStr ''error''])]" ?evs ?fin]
  note b = t [THEN conjunct2, THEN conjunct2, rule_format, of example_socket
      "\<lambda>n. RecvRaises (Exc Socket_error [PStr ''travis-ci''])" 131072
      "Exc Socket_error [PStr ''travis-ci'']" "[]"]
  have "\<exists>w. ?fin = Some (Raises (none_attribute_error ''append''), opened_io None, w)"
    using a f fatal_run_no_sink by simp
  moreover have "receive 131072 (opened_io None)
      [\<lambda>n. RecvRaises (Exc Socket_error [PStr ''travis-ci''])] =
       Some ([EvRecv 131072 (RecvRaises (Exc Socket_error [PStr ''travis-ci'']))],
             Inl (none_attribute_error ''append''), opened_io None, [])"
    using b rf by (simp add: opened_io_fields)
  ultimately show ?thesis by (simp add: fatal_run_no_sink)
qed

end
